theory Spec2Isabelle
  imports Complex_Main "HOL-Library.Word" "HOL-Library.Multiset" "HOL-Library.Code_Target_Nat"
begin

section \<open>Errors and warnings\<close>

text \<open>
  Every exception the reader can raise is a value. The first ten are the error identifiers
  of \<open>morphio::readers::ErrorMessages\<close> that \<open>morphologySWC.cpp\<close> throws;
  \<open>OUT_OF_RANGE\<close> is the \<open>std::out_of_range\<close> of \<open>unordered_map::at\<close> on a missing key, and
  \<open>VECTOR_OUT_OF_BOUNDS\<close> marks a read of a \<open>std::vector\<close> past its end through
  \<open>operator[]\<close>, which C++ leaves undefined.
\<close>

datatype error =
    EARLY_END_OF_FILE
  | ERROR_LINE_NON_PARSABLE
  | ERROR_NEGATIVE_ID
  | ERROR_SELF_PARENT
  | ERROR_REPEATED_ID
  | ERROR_UNSUPPORTED_SECTION_TYPE
  | ERROR_MISSING_PARENT
  | ERROR_SOMA_WITH_NEURITE_PARENT
  | ERROR_MULTIPLE_SOMATA
  | ERROR_SOMA_BIFURCATION
  | OUT_OF_RANGE
  | VECTOR_OUT_OF_BOUNDS

datatype Warning =
    ZERO_DIAMETER
  | DISCONNECTED_NEURITE
  | SOMA_NON_CONFORM
  | WRONG_ROOT_POINT

section \<open>The tokenizer\<close>

text \<open>
  \<open>SWCTokenizer\<close> holds the text, a byte cursor \<open>pos_\<close> and the line counter \<open>line_\<close>.
  Both counters are \<open>size_t\<close>; they are natural numbers here, and \<open>std::string::npos\<close>,
  the largest \<open>size_t\<close>, is written out.
\<close>

record SWCTokenizer =
  pos :: nat
  line :: nat
  contents :: string

definition npos :: nat where
  "npos = 18446744073709551615"

primrec find_idx :: "('a \<Rightarrow> bool) \<Rightarrow> 'a list \<Rightarrow> nat option" where
  "find_idx P [] = None"
| "find_idx P (x # xs) = (if P x then Some 0 else map_option Suc (find_idx P xs))"

text \<open>\<open>std::string::find_first_of(value, pos)\<close>: the first index at or after \<open>pos\<close> that
  holds \<open>value\<close>, or \<open>npos\<close>.\<close>

definition find_first_of :: "string \<Rightarrow> char \<Rightarrow> nat \<Rightarrow> nat" where
  "find_first_of s c p =
     (case find_idx (\<lambda>x. x = c) (drop p s) of None \<Rightarrow> npos | Some i \<Rightarrow> p + i)"

text \<open>\<open>std::string::find_first_not_of(chars, pos)\<close>.\<close>

definition find_first_not_of :: "string \<Rightarrow> char list \<Rightarrow> nat \<Rightarrow> nat" where
  "find_first_not_of s cs p =
     (case find_idx (\<lambda>x. x \<notin> set cs) (drop p s) of None \<Rightarrow> npos | Some i \<Rightarrow> p + i)"

definition done_tok :: "SWCTokenizer \<Rightarrow> bool" where
  "done_tok t = (pos t \<ge> length (contents t))"

text \<open>
  \<open>skip_to\<close> as the source has it: the assignment in the \<open>npos\<close> branch is followed,
  with no \<open>return\<close> or \<open>else\<close>, by the assignment \<open>pos_ = pos\<close>.
\<close>

definition skip_to :: "char \<Rightarrow> SWCTokenizer \<Rightarrow> SWCTokenizer" where
  "skip_to v t =
     (let p = find_first_of (contents t) v (pos t);
          t1 = (if p = npos then t\<lparr>pos := length (contents t)\<rparr> else t)
      in t1\<lparr>pos := p\<rparr>)"

definition advance_to_non_whitespace :: "SWCTokenizer \<Rightarrow> SWCTokenizer" where
  "advance_to_non_whitespace t =
     (if done_tok t then t
      else let p = find_first_not_of (contents t) [CHR '' '', CHR 0x09, CHR 0x0D] (pos t)
           in if p = npos then t\<lparr>pos := length (contents t)\<rparr> else t\<lparr>pos := p\<rparr>)"

text \<open>
  The loop of \<open>consume_line_and_trailing_comments\<close>. The result \<open>None\<close> stands for a
  loop that does not return.
\<close>

partial_function (option) consume_loop ::
  "SWCTokenizer \<Rightarrow> bool \<Rightarrow> (SWCTokenizer \<times> bool) option" where
  "consume_loop t found_newline =
     (if \<not> done_tok t \<and> (contents t ! pos t = CHR ''#'' \<or> contents t ! pos t = CHR 0x0A) then
        (if contents t ! pos t = CHR ''#''
         then consume_loop (advance_to_non_whitespace (skip_to (CHR 0x0A) t)) found_newline
         else consume_loop
                (advance_to_non_whitespace (t\<lparr>line := line t + 1, pos := pos t + 1\<rparr>)) True)
      else Some (t, found_newline))"

declare consume_loop.simps [code]

definition consume_line_and_trailing_comments ::
  "SWCTokenizer \<Rightarrow> (bool \<times> SWCTokenizer) option" where
  "consume_line_and_trailing_comments t =
     (case consume_loop (advance_to_non_whitespace t) False of
        None \<Rightarrow> None
      | Some (t', found_newline) \<Rightarrow> Some (found_newline \<or> done_tok t', t'))"

section \<open>Samples and the constants of the library\<close>

text \<open>
  \<open>Sample\<close> is the record the reader fills per line. \<open>id\<close>, \<open>parentId\<close> and
  \<open>lineNumber\<close> are \<open>unsigned int\<close>, 32-bit words here. A value held in a \<open>floatType\<close> is
  the rational it denotes: the specification has finite coordinates, so infinities and NaN
  are not among the held values, and the comparisons \<open>==\<close>, \<open>!=\<close> and \<open><\<close> of two held
  values are those of the rationals. The arithmetic of \<open>floatType\<close> rounds; it is not
  that of the rationals, and is a parameter below. A \<open>Point\<close> is
  \<open>std::array<floatType, 3>\<close>. \<open>SectionType\<close> is an enumeration declared outside the
  sources at hand; it is the integer the reader casts into it, narrowed to the 32 bits of
  an \<open>int\<close>.
\<close>

type_synonym u32 = "32 word"
type_synonym floatType = rat
type_synonym Point = "floatType \<times> floatType \<times> floatType"

record Sample =
  sample_id :: u32
  sample_type :: int
  point :: Point
  diameter :: floatType
  parentId :: u32
  lineNumber :: u32

definition SWC_UNDEFINED_PARENT :: int where
  "SWC_UNDEFINED_PARENT = - 1"

definition SWC_ROOT :: u32 where
  "SWC_ROOT = 0xFFFFFFFD"

text \<open>Modelled from the spec: the enumerator \<open>SECTION_SOMA\<close> of \<open>morphio/enums.h\<close>, which is
  not among the sources; the text format has \<open>1\<close> for soma.\<close>

definition SECTION_SOMA :: int where
  "SECTION_SOMA = 1"

text \<open>
  The other declarations the reader uses and the sources do not hold are parameters:
  \<open>morphio::epsilon\<close>, the enumerator \<open>SECTION_OUT_OF_RANGE_START\<close>, the
  default-constructed \<open>Sample\<close> that \<open>unordered_map::operator[]\<close> inserts for a missing key,
  and the arithmetic of \<open>floatType\<close> (\<open>float\<close> or \<open>double\<close>, by the build):
  \<open>float_round\<close> is the \<open>floatType\<close> nearest to a rational, \<open>float_half\<close> is \<open>d / 2\<close>, and
  \<open>float_sub\<close> and \<open>float_add\<close> are \<open>a - b\<close> and \<open>a + b\<close>, with \<open>None\<close> for a result that is
  not finite. Nothing is assumed of them.
\<close>

record Constants =
  epsilon :: floatType
  SECTION_OUT_OF_RANGE_START :: int
  default_Sample :: Sample
  float_round :: "rat \<Rightarrow> floatType"
  float_half :: "floatType \<Rightarrow> floatType"
  float_sub :: "floatType \<Rightarrow> floatType \<Rightarrow> floatType option"
  float_add :: "floatType \<Rightarrow> floatType \<Rightarrow> floatType option"

text \<open>A held value against a computed one: \<open>a != c\<close>, and \<open>std::fabs(c) < e\<close>. A result
  that is not finite differs from every held value and is not below a held bound.\<close>

definition float_differs :: "floatType \<Rightarrow> floatType option \<Rightarrow> bool" where
  "float_differs a c = (case c of None \<Rightarrow> True | Some b \<Rightarrow> a \<noteq> b)"

definition fabs_below :: "floatType option \<Rightarrow> floatType \<Rightarrow> bool" where
  "fabs_below c e = (case c of None \<Rightarrow> False | Some v \<Rightarrow> \<bar>v\<bar> < e)"

section \<open>Validation and indexing: the first loop of \<open>buildSWC\<close>\<close>

record Indices =
  soma_samples :: "Sample list"
  root_samples :: "Sample list"
  samples_map :: "u32 \<rightharpoonup> Sample"
  children_map :: "u32 \<rightharpoonup> u32 list"

definition empty_Indices :: Indices where
  "empty_Indices =
     \<lparr>soma_samples = [], root_samples = [], samples_map = Map.empty, children_map = Map.empty\<rparr>"

text \<open>\<open>std::vector::operator[]\<close>: a read past the end is \<open>None\<close>.\<close>

definition vector_at :: "'a list \<Rightarrow> nat \<Rightarrow> 'a option" where
  "vector_at xs i = (if i < length xs then Some (xs ! i) else None)"

text \<open>
  One iteration of the first loop. \<open>samples\<close> is the whole vector, which the duplicate-id
  branch indexes with \<open>samples[sample.id]\<close>. The warnings printed by the iteration are
  returned beside the indices; those printed before a throw are not kept in the error.
\<close>

definition index_sample ::
  "Constants \<Rightarrow> Sample list \<Rightarrow> Indices \<Rightarrow> Sample \<Rightarrow> error + (Indices \<times> Warning list)" where
  "index_sample k samples st sample =
     (let w1 = (if diameter sample < epsilon k then [ZERO_DIAMETER] else []) in
      if parentId sample = sample_id sample then Inl ERROR_SELF_PARENT
      else if sample_type sample \<ge> SECTION_OUT_OF_RANGE_START k \<or> sample_type sample \<le> 0
      then Inl ERROR_UNSUPPORTED_SECTION_TYPE
      else
        let w2 = (if parentId sample = SWC_ROOT \<and> sample_type sample \<noteq> SECTION_SOMA
                  then [DISCONNECTED_NEURITE] else []);
            st1 = (if sample_type sample = SECTION_SOMA
                   then st\<lparr>soma_samples := soma_samples st @ [sample]\<rparr> else st);
            st2 = (if parentId sample = SWC_ROOT \<or> sample_type sample = SECTION_SOMA
                   then st1\<lparr>root_samples := root_samples st1 @ [sample]\<rparr> else st1)
        in case samples_map st2 (sample_id sample) of
             Some _ \<Rightarrow>
               (case vector_at samples (unat (sample_id sample)) of
                  None \<Rightarrow> Inl VECTOR_OUT_OF_BOUNDS
                | Some _ \<Rightarrow> Inl ERROR_REPEATED_ID)
           | None \<Rightarrow>
               Inr (st2\<lparr>samples_map := (samples_map st2)(sample_id sample \<mapsto> sample),
                        children_map := (children_map st2)(parentId sample \<mapsto>
                           (case children_map st2 (parentId sample) of
                              None \<Rightarrow> [] | Some cs \<Rightarrow> cs) @ [sample_id sample])\<rparr>,
                    w1 @ w2))"

fun index_samples ::
  "Constants \<Rightarrow> Sample list \<Rightarrow> Indices \<Rightarrow> Sample list \<Rightarrow> error + (Indices \<times> Warning list)" where
  "index_samples k samples st [] = Inr (st, [])"
| "index_samples k samples st (s # ss) =
     (case index_sample k samples st s of
        Inl e \<Rightarrow> Inl e
      | Inr (st', w) \<Rightarrow>
          (case index_samples k samples st' ss of
             Inl e \<Rightarrow> Inl e
           | Inr (st'', ws) \<Rightarrow> Inr (st'', w @ ws)))"

text \<open>The second loop: missing parents, checked once every sample is indexed.\<close>

fun check_missing_parents :: "(u32 \<rightharpoonup> Sample) \<Rightarrow> Sample list \<Rightarrow> error + unit" where
  "check_missing_parents sm [] = Inr ()"
| "check_missing_parents sm (s # ss) =
     (if parentId s \<noteq> SWC_ROOT \<and> sm (parentId s) = None then Inl ERROR_MISSING_PARENT
      else check_missing_parents sm ss)"

section \<open>The soma\<close>

datatype SomaType =
    SOMA_UNDEFINED
  | SOMA_SINGLE_POINT
  | SOMA_NEUROMORPHO_THREE_POINT_CYLINDERS
  | SOMA_CYLINDERS

record Soma =
  soma_type :: SomaType
  soma_points :: "Point list"
  soma_diameters :: "floatType list"

definition empty_Soma :: Soma where
  "empty_Soma = \<lparr>soma_type = SOMA_UNDEFINED, soma_points = [], soma_diameters = []\<rparr>"

text \<open>\<open>_checkNeuromorph3PointSoma\<close>, on the three samples \<open>build_soma\<close> has bound to
  \<open>center\<close>, \<open>child1\<close> and \<open>child2\<close>; the result is the warnings it prints.\<close>

definition checkNeuromorph3PointSoma ::
  "Constants \<Rightarrow> Sample \<Rightarrow> Sample \<Rightarrow> Sample \<Rightarrow> Warning list" where
  "checkNeuromorph3PointSoma k center child1 child2 =
     (let x = fst (point center);
          z = snd (snd (point center));
          d = diameter center;
          r = float_half k (diameter center);
          y = fst (snd (point center))
      in if (fst (point child1) \<noteq> x \<or> fst (point child2) \<noteq> x \<or>
             float_differs (fst (snd (point child1))) (float_sub k y r) \<or>
             float_differs (fst (snd (point child2))) (float_add k y r) \<or>
             snd (snd (point child1)) \<noteq> z \<or> snd (snd (point child2)) \<noteq> z \<or>
             diameter child1 \<noteq> d \<or> diameter child2 \<noteq> d) \<and>
            fabs_below (float_sub k (diameter child1) d) (epsilon k) \<and>
            fabs_below (float_sub k (diameter child2) d) (epsilon k) \<and>
            fabs_below (float_sub k (fst (point child1)) x) (epsilon k) \<and>
            fabs_below (float_sub k (fst (point child2)) x) (epsilon k) \<and>
            fabs_below (float_sub k (snd (snd (point child1))) z) (epsilon k) \<and>
            fabs_below (float_sub k (snd (snd (point child2))) z) (epsilon k)
         then [SOMA_NON_CONFORM] else [])"

text \<open>The inner loop of the cylinder soma: the children of \<open>s\<close> that are soma samples.
  \<open>samples_[id]\<close> inserts the default sample when the key is missing.\<close>

fun soma_bifurcations ::
  "Constants \<Rightarrow> (u32 \<rightharpoonup> Sample) \<Rightarrow> u32 list \<Rightarrow> Sample list \<Rightarrow> Sample list \<times> (u32 \<rightharpoonup> Sample)" where
  "soma_bifurcations k sm [] acc = (acc, sm)"
| "soma_bifurcations k sm (i # ids) acc =
     (let sm' = (case sm i of None \<Rightarrow> sm(i \<mapsto> default_Sample k) | Some _ \<Rightarrow> sm);
          s = (case sm i of None \<Rightarrow> default_Sample k | Some s \<Rightarrow> s)
      in soma_bifurcations k sm' ids (if sample_type s = SECTION_SOMA then acc @ [s] else acc))"

text \<open>The loop of the cylinder soma over \<open>soma_samples\<close>; the state is \<open>parent_count\<close>,
  the points and diameters pushed so far, and \<open>samples_\<close>.\<close>

fun soma_cylinders ::
  "Constants \<Rightarrow> (u32 \<rightharpoonup> u32 list) \<Rightarrow> Sample list \<Rightarrow>
   nat \<times> Point list \<times> floatType list \<times> (u32 \<rightharpoonup> Sample) \<Rightarrow>
   error + (nat \<times> Point list \<times> floatType list \<times> (u32 \<rightharpoonup> Sample))" where
  "soma_cylinders k ch [] st = Inr st"
| "soma_cylinders k ch (s # ss) (parent_count, points, diameters, sm) =
     (case (if parentId s = SWC_ROOT then Inr (parent_count + 1)
            else case sm (parentId s) of
                   None \<Rightarrow> Inl ERROR_MISSING_PARENT
                 | Some p \<Rightarrow> if sample_type p \<noteq> SECTION_SOMA
                             then Inl ERROR_SOMA_WITH_NEURITE_PARENT else Inr parent_count) of
        Inl e \<Rightarrow> Inl e
      | Inr parent_count' \<Rightarrow>
          (case (case ch (sample_id s) of
                   None \<Rightarrow> Inr sm
                 | Some cs \<Rightarrow>
                     if length cs > 1 then
                       (case soma_bifurcations k sm cs [] of
                          (bif, sm') \<Rightarrow> if length bif > 1 then Inl ERROR_SOMA_BIFURCATION
                                        else Inr sm')
                     else Inr sm) of
             Inl e \<Rightarrow> Inl e
           | Inr sm' \<Rightarrow>
               soma_cylinders k ch ss
                 (parent_count', points @ [point s], diameters @ [diameter s], sm')))"

text \<open>The tail of \<open>build_soma\<close>: "a normal SWC soma", reached when the earlier branches
  have not returned.\<close>

definition build_soma_cylinders ::
  "Constants \<Rightarrow> (u32 \<rightharpoonup> Sample) \<Rightarrow> (u32 \<rightharpoonup> u32 list) \<Rightarrow> Soma \<Rightarrow> Sample list \<Rightarrow>
   error + (Soma \<times> (u32 \<rightharpoonup> Sample) \<times> Warning list)" where
  "build_soma_cylinders k sm ch soma0 ss =
     (case soma_cylinders k ch ss (0, soma_points soma0, soma_diameters soma0, sm) of
        Inl e \<Rightarrow> Inl e
      | Inr (parent_count, points, diameters, sm') \<Rightarrow>
          if parent_count > 1 then Inl ERROR_MULTIPLE_SOMATA
          else Inr (\<lparr>soma_type = SOMA_CYLINDERS, soma_points = points,
                     soma_diameters = diameters\<rparr>, sm', []))"

definition build_soma ::
  "Constants \<Rightarrow> (u32 \<rightharpoonup> Sample) \<Rightarrow> (u32 \<rightharpoonup> u32 list) \<Rightarrow> Soma \<Rightarrow> Sample list \<Rightarrow>
   error + (Soma \<times> (u32 \<rightharpoonup> Sample) \<times> Warning list)" where
  "build_soma k sm ch soma0 ss =
     (case ss of
        [] \<Rightarrow> Inr (soma0\<lparr>soma_type := SOMA_UNDEFINED\<rparr>, sm, [])
      | [sample] \<Rightarrow>
          (case (if parentId sample \<noteq> SWC_ROOT then
                   (case sm (parentId sample) of
                      None \<Rightarrow> Inl OUT_OF_RANGE
                    | Some p \<Rightarrow> if sample_type p \<noteq> SECTION_SOMA
                                then Inl ERROR_SOMA_WITH_NEURITE_PARENT else Inr ())
                 else Inr ()) of
             Inl e \<Rightarrow> Inl e
           | Inr _ \<Rightarrow>
               Inr (\<lparr>soma_type = SOMA_SINGLE_POINT, soma_points = [point sample],
                     soma_diameters = [diameter sample]\<rparr>, sm, []))
      | [center, child1, child2] \<Rightarrow>
          if sample_id center = parentId child1 \<and> sample_id center = parentId child2
          then Inr (\<lparr>soma_type = SOMA_NEUROMORPHO_THREE_POINT_CYLINDERS,
                     soma_points = [point center, point child1, point child2],
                     soma_diameters = [diameter center, diameter child1, diameter child2]\<rparr>,
                    sm, checkNeuromorph3PointSoma k center child1 child2)
          else build_soma_cylinders k sm ch soma0 ss
      | _ \<Rightarrow> build_soma_cylinders k sm ch soma0 ss)"

section \<open>The tree assembler\<close>

record Section =
  section_parent :: "nat option"
  section_points :: "Point list"
  section_diameters :: "floatType list"
  section_type :: int

record Morphology =
  soma :: Soma
  sections :: "Section list"

text \<open>Modelled from the spec: \<open>mut::Morphology::appendRootSection\<close> is not among the
  sources. The builder is opaque to the reader: a section has ordered points, parallel
  diameters and one type, and is created as a root section or by appending to a parent
  section handle. The morphology records the sections in the order they are created; the
  handle of a section is its position.\<close>

definition appendRootSection ::
  "Point list \<Rightarrow> floatType list \<Rightarrow> int \<Rightarrow> Morphology \<Rightarrow> nat \<times> Morphology" where
  "appendRootSection points diameters ty m =
     (length (sections m),
      m\<lparr>sections := sections m @
           [\<lparr>section_parent = None, section_points = points,
             section_diameters = diameters, section_type = ty\<rparr>]\<rparr>)"

text \<open>Modelled from the spec: \<open>mut::Section::appendSection\<close> is not among the sources; the
  new section is recorded with the handle it was appended to as its parent.\<close>

definition Section_appendSection ::
  "nat \<Rightarrow> Point list \<Rightarrow> floatType list \<Rightarrow> int \<Rightarrow> Morphology \<Rightarrow> nat \<times> Morphology" where
  "Section_appendSection h points diameters ty m =
     (length (sections m),
      m\<lparr>sections := sections m @
           [\<lparr>section_parent = Some h, section_points = points,
             section_diameters = diameters, section_type = ty\<rparr>]\<rparr>)"

text \<open>The lambda \<open>appendSection\<close> of \<open>assembleSections\<close>; the state is \<open>morph_\<close> and
  \<open>declared_to_swc\<close>.\<close>

definition appendSection ::
  "bool \<Rightarrow> Point list \<Rightarrow> floatType list \<Rightarrow> u32 \<Rightarrow> u32 \<Rightarrow> int \<Rightarrow>
   Morphology \<times> (u32 \<rightharpoonup> nat) \<Rightarrow> error + (Morphology \<times> (u32 \<rightharpoonup> nat))" where
  "appendSection is_root points diameters section_id parent_id starting_section_type st =
     (case st of (m, declared_to_swc) \<Rightarrow>
        if is_root then
          (case appendRootSection points diameters starting_section_type m of
             (new_section, m') \<Rightarrow> Inr (m', declared_to_swc(section_id \<mapsto> new_section)))
        else
          (case declared_to_swc parent_id of
             None \<Rightarrow> Inl OUT_OF_RANGE
           | Some h \<Rightarrow>
               (case Section_appendSection h points diameters starting_section_type m of
                  (new_section, m') \<Rightarrow> Inr (m', declared_to_swc(section_id \<mapsto> new_section)))))"

definition get_child_count :: "(u32 \<rightharpoonup> u32 list) \<Rightarrow> u32 \<Rightarrow> nat" where
  "get_child_count ch child_id = (case ch child_id of None \<Rightarrow> 0 | Some cs \<Rightarrow> length cs)"

text \<open>
  The \<open>while (children_count == 1)\<close> loop, which combines single samples of one type. It
  returns the id it stops at and the points and diameters pushed. Nothing in the loop
  bounds its iterations, so it runs on fuel: \<open>None\<close> is a loop that has not returned
  within the fuel.
\<close>

fun combine_samples ::
  "nat \<Rightarrow> (u32 \<rightharpoonup> Sample) \<Rightarrow> (u32 \<rightharpoonup> u32 list) \<Rightarrow> u32 \<Rightarrow> Point list \<Rightarrow> floatType list \<Rightarrow>
   (error + (u32 \<times> Point list \<times> floatType list)) option" where
  "combine_samples 0 sm ch i points diameters = None"
| "combine_samples (Suc n) sm ch i points diameters =
     (if get_child_count ch i = 1 then
        (case sm i of
           None \<Rightarrow> Some (Inl OUT_OF_RANGE)
         | Some sample \<Rightarrow>
             (case ch i of
                Some (c # _) \<Rightarrow>
                  (case sm c of
                     None \<Rightarrow> Some (Inl OUT_OF_RANGE)
                   | Some child \<Rightarrow>
                       if sample_type sample \<noteq> sample_type child
                       then Some (Inr (i, points, diameters))
                       else combine_samples n sm ch c
                              (points @ [point sample]) (diameters @ [diameter sample]))
              | _ \<Rightarrow> Some (Inl OUT_OF_RANGE)))
      else Some (Inr (i, points, diameters)))"

text \<open>
  \<open>assembleSections\<close>, with the \<open>for\<close> loop over the children of the last sample as
  \<open>assembleChildren\<close>. The recursion runs on the same fuel.
\<close>

function assembleSections ::
  "nat \<Rightarrow> (u32 \<rightharpoonup> Sample) \<Rightarrow> (u32 \<rightharpoonup> u32 list) \<Rightarrow> u32 \<Rightarrow> u32 \<Rightarrow> Point \<Rightarrow> floatType \<Rightarrow> bool \<Rightarrow>
   Morphology \<times> (u32 \<rightharpoonup> nat) \<Rightarrow> (error + (Morphology \<times> (u32 \<rightharpoonup> nat))) option"
and assembleChildren ::
  "nat \<Rightarrow> (u32 \<rightharpoonup> Sample) \<Rightarrow> (u32 \<rightharpoonup> u32 list) \<Rightarrow> u32 list \<Rightarrow> u32 \<Rightarrow> Point \<Rightarrow> floatType \<Rightarrow>
   Morphology \<times> (u32 \<rightharpoonup> nat) \<Rightarrow> (error + (Morphology \<times> (u32 \<rightharpoonup> nat))) option" where
  "assembleSections 0 sm ch i parent_id start_point start_diameter is_root st = None"
| "assembleSections (Suc n) sm ch i parent_id start_point start_diameter is_root st =
     (case sm i of
        None \<Rightarrow> Some (Inl OUT_OF_RANGE)
      | Some sample0 \<Rightarrow>
          (case combine_samples n sm ch i
                  (if \<not> is_root \<and> point sample0 \<noteq> start_point then [start_point] else [])
                  (if \<not> is_root \<and> point sample0 \<noteq> start_point then [start_diameter] else []) of
             None \<Rightarrow> None
           | Some (Inl e) \<Rightarrow> Some (Inl e)
           | Some (Inr (j, points0, diameters0)) \<Rightarrow>
               (case sm j of
                  None \<Rightarrow> Some (Inl OUT_OF_RANGE)
                | Some sample \<Rightarrow>
                    (case appendSection is_root (points0 @ [point sample])
                            (diameters0 @ [diameter sample]) j parent_id (sample_type sample) st of
                       Inl e \<Rightarrow> Some (Inl e)
                     | Inr st' \<Rightarrow>
                         if get_child_count ch j = 0 then Some (Inr st')
                         else if get_child_count ch j = 1 then
                           (case ch j of
                              Some (c # _) \<Rightarrow>
                                assembleSections n sm ch c j (point sample) (diameter sample)
                                  False st'
                            | _ \<Rightarrow> Some (Inl OUT_OF_RANGE))
                         else
                           (case ch j of
                              Some cs \<Rightarrow>
                                assembleChildren n sm ch cs j (point sample) (diameter sample) st'
                            | None \<Rightarrow> Some (Inl OUT_OF_RANGE))))))"
| "assembleChildren n sm ch [] parent_id start_point start_diameter st = Some (Inr st)"
| "assembleChildren n sm ch (child_id # rest) parent_id start_point start_diameter st =
     (case assembleSections n sm ch child_id parent_id start_point start_diameter False st of
        None \<Rightarrow> None
      | Some (Inl e) \<Rightarrow> Some (Inl e)
      | Some (Inr st') \<Rightarrow> assembleChildren n sm ch rest parent_id start_point start_diameter st')"
  by pat_completeness auto
termination
  by (relation "measures
         [\<lambda>x. case x of
            Inl (n, sm, ch, i, p, sp, sd, r, st) \<Rightarrow> 2 * n
          | Inr (n, sm, ch, cs, p, sp, sd, st) \<Rightarrow> 2 * n + 1,
          \<lambda>x. case x of
            Inl (n, sm, ch, i, p, sp, sd, r, st) \<Rightarrow> 0
          | Inr (n, sm, ch, cs, p, sp, sd, st) \<Rightarrow> length cs]")
     auto

text \<open>The loop over the children of one root sample, up to its \<open>break\<close>.\<close>

fun root_children ::
  "nat \<Rightarrow> (u32 \<rightharpoonup> Sample) \<Rightarrow> (u32 \<rightharpoonup> u32 list) \<Rightarrow> Sample \<Rightarrow> u32 list \<Rightarrow>
   Morphology \<times> (u32 \<rightharpoonup> nat) \<Rightarrow> (error + (Morphology \<times> (u32 \<rightharpoonup> nat))) option" where
  "root_children n sm ch root_sample [] st = Some (Inr st)"
| "root_children n sm ch root_sample (child_id # rest) st =
     (case sm child_id of
        None \<Rightarrow> Some (Inl OUT_OF_RANGE)
      | Some child \<Rightarrow>
          if sample_type child = SECTION_SOMA then root_children n sm ch root_sample rest st
          else if sample_type root_sample = SECTION_SOMA then
            (case (soma_points (soma (fst st)), soma_diameters (soma (fst st))) of
               (p0 # _, d0 # _) \<Rightarrow>
                 (case assembleSections n sm ch child_id (sample_id root_sample) p0 d0 True st of
                    None \<Rightarrow> None
                  | Some (Inl e) \<Rightarrow> Some (Inl e)
                  | Some (Inr st') \<Rightarrow> root_children n sm ch root_sample rest st')
             | _ \<Rightarrow> Some (Inl VECTOR_OUT_OF_BOUNDS))
          else assembleSections n sm ch (sample_id root_sample) SWC_ROOT
                 (point root_sample) (diameter root_sample) True st)"

text \<open>The loop over \<open>root_samples\<close>; the warnings it prints are returned beside the state.\<close>

fun root_loop ::
  "nat \<Rightarrow> (u32 \<rightharpoonup> Sample) \<Rightarrow> (u32 \<rightharpoonup> u32 list) \<Rightarrow> Sample list \<Rightarrow>
   Morphology \<times> (u32 \<rightharpoonup> nat) \<Rightarrow>
   (error + ((Morphology \<times> (u32 \<rightharpoonup> nat)) \<times> Warning list)) option" where
  "root_loop n sm ch [] st = Some (Inr (st, []))"
| "root_loop n sm ch (root_sample # rest) st =
     (case ch (sample_id root_sample) of
        None \<Rightarrow> root_loop n sm ch rest st
      | Some cs \<Rightarrow>
          (case root_children n sm ch root_sample cs st of
             None \<Rightarrow> None
           | Some (Inl e) \<Rightarrow> Some (Inl e)
           | Some (Inr st') \<Rightarrow>
               (case root_loop n sm ch rest st' of
                  None \<Rightarrow> None
                | Some (Inl e) \<Rightarrow> Some (Inl e)
                | Some (Inr (st'', ws)) \<Rightarrow>
                    Some (Inr (st'',
                      (if soma_type (soma (fst st)) = SOMA_NEUROMORPHO_THREE_POINT_CYLINDERS \<and>
                          sample_type root_sample = SECTION_SOMA \<and> sample_id root_sample \<noteq> 1
                       then [WRONG_ROOT_POINT] else []) @ ws)))))"

text \<open>
  \<open>buildSWC\<close> on a fresh builder: both loops over the samples, the soma, and the sections.
  The result is \<open>morph_\<close> and the warnings printed, in order. \<open>fuel\<close> bounds each
  top-level call of \<open>assembleSections\<close>.
\<close>

definition buildSWC ::
  "nat \<Rightarrow> Constants \<Rightarrow> Sample list \<Rightarrow> (error + (Morphology \<times> Warning list)) option" where
  "buildSWC fuel k samples =
     (case index_samples k samples empty_Indices samples of
        Inl e \<Rightarrow> Some (Inl e)
      | Inr (ix, w1) \<Rightarrow>
          (case check_missing_parents (samples_map ix) samples of
             Inl e \<Rightarrow> Some (Inl e)
           | Inr _ \<Rightarrow>
               (case build_soma k (samples_map ix) (children_map ix) empty_Soma
                       (soma_samples ix) of
                  Inl e \<Rightarrow> Some (Inl e)
                | Inr (so, sm', w2) \<Rightarrow>
                    (case root_loop fuel sm' (children_map ix) (root_samples ix)
                            (\<lparr>soma = so, sections = []\<rparr>, Map.empty) of
                       None \<Rightarrow> None
                     | Some (Inl e) \<Rightarrow> Some (Inl e)
                     | Some (Inr ((m, d), w3)) \<Rightarrow> Some (Inr (m, w1 @ w2 @ w3))))))"

section \<open>Reading numbers and samples\<close>

definition is_digit :: "char \<Rightarrow> bool" where
  "is_digit c = (c \<in> set ''0123456789'')"

definition digits_value :: "string \<Rightarrow> nat" where
  "digits_value ds = foldl (\<lambda>a c. 10 * a + (of_char c - 48)) 0 ds"

text \<open>Modelled from the spec: \<open>StringToNumber::toInt\<close> is not among the sources. It parses
  a signed integer literal that starts at the cursor, by the lexical rules of the
  platform's parser (an optional sign, then decimal digits), and returns the value and the
  position past the literal; a parse failure is \<open>ERROR_LINE_NON_PARSABLE\<close>. The result is
  an \<open>int64_t\<close>: as the platform's parser does, a value beyond its range is replaced by
  the nearest bound.\<close>

definition toInt :: "string \<Rightarrow> nat \<Rightarrow> error + (int \<times> nat)" where
  "toInt s p =
     (let r0 = drop p s;
          neg = (r0 \<noteq> [] \<and> hd r0 = CHR ''-'');
          r1 = (if r0 \<noteq> [] \<and> (hd r0 = CHR ''-'' \<or> hd r0 = CHR ''+'') then tl r0 else r0);
          ds = takeWhile is_digit r1
      in if ds = [] then Inl ERROR_LINE_NON_PARSABLE
         else Inr (max (- 9223372036854775808) (min 9223372036854775807
                     (if neg then - int (digits_value ds) else int (digits_value ds))),
                   length s - length (dropWhile is_digit r1)))"

text \<open>Modelled from the spec: \<open>StringToNumber::toFloat\<close> is not among the sources. It
  parses a floating-point literal that starts at the cursor: an optional sign, digits with
  an optional fractional part, and an optional exponent; a parse failure is
  \<open>ERROR_LINE_NON_PARSABLE\<close>. The value is the \<open>floatType\<close> nearest to the rational the
  literal denotes; literals beyond the range of \<open>floatType\<close> are not modelled.\<close>

definition toFloat :: "Constants \<Rightarrow> string \<Rightarrow> nat \<Rightarrow> error + (floatType \<times> nat)" where
  "toFloat k s p =
     (let r0 = drop p s;
          neg = (r0 \<noteq> [] \<and> hd r0 = CHR ''-'');
          r1 = (if r0 \<noteq> [] \<and> (hd r0 = CHR ''-'' \<or> hd r0 = CHR ''+'') then tl r0 else r0);
          ip = takeWhile is_digit r1;
          r2 = dropWhile is_digit r1;
          has_dot = (r2 \<noteq> [] \<and> hd r2 = CHR ''.'');
          fp = (if has_dot then takeWhile is_digit (tl r2) else []);
          r3 = (if has_dot then dropWhile is_digit (tl r2) else r2);
          has_e = (r3 \<noteq> [] \<and> (hd r3 = CHR ''e'' \<or> hd r3 = CHR ''E''));
          r4 = (if has_e then tl r3 else r3);
          eneg = (r4 \<noteq> [] \<and> hd r4 = CHR ''-'');
          r5 = (if r4 \<noteq> [] \<and> (hd r4 = CHR ''-'' \<or> hd r4 = CHR ''+'') then tl r4 else r4);
          ep = (if has_e then takeWhile is_digit r5 else []);
          r6 = (if ep = [] then r3 else dropWhile is_digit r5);
          m = of_nat (digits_value (ip @ fp)) / 10 ^ length fp;
          v = (if eneg then m / 10 ^ digits_value ep else m * 10 ^ digits_value ep)
      in if ip = [] \<and> fp = [] then Inl ERROR_LINE_NON_PARSABLE
         else Inr (float_round k (if neg then - v else v), length s - length r6))"

text \<open>The loop of \<open>advance_to_number\<close>: it consumes lines, comments and blanks for as long
  as \<open>consume_line_and_trailing_comments\<close> finds a newline.\<close>

partial_function (option) advance_loop :: "SWCTokenizer \<Rightarrow> SWCTokenizer option" where
  "advance_loop t =
     (if done_tok t then Some t
      else case consume_line_and_trailing_comments t of
             None \<Rightarrow> None
           | Some (found, t') \<Rightarrow> if found then advance_loop t' else Some t')"

declare advance_loop.simps [code]

definition advance_to_number :: "SWCTokenizer \<Rightarrow> (error + SWCTokenizer) option" where
  "advance_to_number t =
     (case advance_loop t of
        None \<Rightarrow> None
      | Some t' \<Rightarrow>
          if done_tok t' then Some (Inl EARLY_END_OF_FILE)
          else let c = contents t' ! pos t'
               in if is_digit c \<or> c = CHR ''-'' \<or> c = CHR ''+'' \<or> c = CHR ''.''
                  then Some (Inr t') else Some (Inl ERROR_LINE_NON_PARSABLE))"

definition read_int :: "SWCTokenizer \<Rightarrow> (error + (int \<times> SWCTokenizer)) option" where
  "read_int t =
     (case advance_to_number t of
        None \<Rightarrow> None
      | Some (Inl e) \<Rightarrow> Some (Inl e)
      | Some (Inr t') \<Rightarrow>
          (case toInt (contents t') (pos t') of
             Inl e \<Rightarrow> Some (Inl e)
           | Inr (v, p) \<Rightarrow> Some (Inr (v, t'\<lparr>pos := p\<rparr>))))"

definition read_float ::
  "Constants \<Rightarrow> SWCTokenizer \<Rightarrow> (error + (floatType \<times> SWCTokenizer)) option" where
  "read_float k t =
     (case advance_to_number t of
        None \<Rightarrow> None
      | Some (Inl e) \<Rightarrow> Some (Inl e)
      | Some (Inr t') \<Rightarrow>
          (case toFloat k (contents t') (pos t') of
             Inl e \<Rightarrow> Some (Inl e)
           | Inr (v, p) \<Rightarrow> Some (Inr (v, t'\<lparr>pos := p\<rparr>))))"

text \<open>Sequencing of steps that may throw or not return.\<close>

definition bindT ::
  "(error + 'a) option \<Rightarrow> ('a \<Rightarrow> (error + 'b) option) \<Rightarrow> (error + 'b) option" where
  "bindT m f = (case m of None \<Rightarrow> None | Some (Inl e) \<Rightarrow> Some (Inl e) | Some (Inr x) \<Rightarrow> f x)"

text \<open>The body of the loop of \<open>readSamples\<close>: one sample, read field by field. The narrowing
  casts to \<open>unsigned int\<close> keep the low 32 bits, and the cast to \<open>SectionType\<close> keeps the
  low 32 bits as a signed \<open>int\<close>. The product \<open>2 * radius\<close> is rounded to \<open>floatType\<close>.\<close>

definition read_sample ::
  "Constants \<Rightarrow> SWCTokenizer \<Rightarrow> (error + (Sample \<times> SWCTokenizer)) option" where
  "read_sample k t0 =
     bindT (read_int t0) (\<lambda>(id_v, t1).
       if id_v < 0 then Some (Inl ERROR_NEGATIVE_ID) else
       bindT (read_int t1) (\<lambda>(type_v, t2).
       bindT (read_float k t2) (\<lambda>(x, t3).
       bindT (read_float k t3) (\<lambda>(y, t4).
       bindT (read_float k t4) (\<lambda>(z, t5).
       bindT (read_float k t5) (\<lambda>(radius, t6).
       bindT (read_int t6) (\<lambda>(parent_v, t7).
         if parent_v < - 1 then Some (Inl ERROR_NEGATIVE_ID) else
         (case consume_line_and_trailing_comments t7 of
            None \<Rightarrow> None
          | Some (ended, t8) \<Rightarrow>
              if \<not> ended then Some (Inl ERROR_LINE_NON_PARSABLE)
              else Some (Inr
                (\<lparr>sample_id = word_of_int id_v,
                  sample_type = sint (word_of_int type_v :: 32 word),
                  point = (x, y, z),
                  diameter = float_round k (2 * radius),
                  parentId = (if parent_v = SWC_UNDEFINED_PARENT then SWC_ROOT
                              else word_of_int parent_v),
                  lineNumber = of_nat (line t0)\<rparr>, t8))))))))))"

partial_function (option) readSamples_loop ::
  "Constants \<Rightarrow> SWCTokenizer \<Rightarrow> Sample list \<Rightarrow> (error + Sample list) option" where
  "readSamples_loop k t samples =
     (if done_tok t then Some (Inr samples)
      else case read_sample k t of
             None \<Rightarrow> None
           | Some (Inl e) \<Rightarrow> Some (Inl e)
           | Some (Inr (sample, t')) \<Rightarrow> readSamples_loop k t' (samples @ [sample]))"

declare readSamples_loop.simps [code]

definition readSamples :: "Constants \<Rightarrow> string \<Rightarrow> (error + Sample list) option" where
  "readSamples k text =
     (case consume_line_and_trailing_comments \<lparr>pos = 0, line = 1, contents = text\<rparr> of
        None \<Rightarrow> None
      | Some (_, t) \<Rightarrow> readSamples_loop k t [])"

text \<open>
  \<open>load\<close>, up to the morphology \<open>buildSWC\<close> leaves in the builder: \<open>applyModifiers\<close> and
  \<open>buildReadOnly\<close> belong to the builder and are not modelled.
\<close>

definition load ::
  "nat \<Rightarrow> Constants \<Rightarrow> string \<Rightarrow> (error + (Morphology \<times> Warning list)) option" where
  "load fuel k text =
     (case readSamples k text of
        None \<Rightarrow> None
      | Some (Inl e) \<Rightarrow> Some (Inl e)
      | Some (Inr samples) \<Rightarrow> buildSWC fuel k samples)"

text \<open>
  An instance of the parameters, for running the reader on concrete files: \<open>epsilon\<close> is
  \<open>10\<^sup>-\<^sup>6\<close>, section types are valid below 20, the default sample has the undefined
  type 0, and the arithmetic is that of the rationals. It is the arithmetic of \<open>floatType\<close>
  wherever the operands and the result are values \<open>floatType\<close> holds exactly, as they are
  in the files evaluated below.
\<close>

definition test_Constants :: Constants where
  "test_Constants =
     \<lparr>epsilon = 1 / 1000000, SECTION_OUT_OF_RANGE_START = 20,
      default_Sample = \<lparr>sample_id = 0, sample_type = 0, point = (0, 0, 0), diameter = - 1,
                        parentId = 0, lineNumber = 0\<rparr>,
      float_round = (\<lambda>x. x), float_half = (\<lambda>d. d / 2),
      float_sub = (\<lambda>a b. Some (a - b)), float_add = (\<lambda>a b. Some (a + b))\<rparr>"

text \<open>The sections of a finished load, in the order they were created; none when the load
  failed.\<close>

definition emitted_sections ::
  "(error + (Morphology \<times> Warning list)) option \<Rightarrow> Section list" where
  "emitted_sections r = (case r of Some (Inr (m, w)) \<Rightarrow> sections m | _ \<Rightarrow> [])"

section \<open>What the specification says of the soma\<close>



text \<open>
  The soma variant, in the words of the specification: undefined for no soma sample, a
  single point for one, the three-point cylinders for three samples of which the second and
  the third have the first one's id as their parent, and cylinders otherwise.
\<close>

definition soma_variant :: "Sample list \<Rightarrow> SomaType" where
  "soma_variant ss =
     (if length ss = 0 then SOMA_UNDEFINED
      else if length ss = 1 then SOMA_SINGLE_POINT
      else if length ss = 3 \<and> parentId (ss ! 1) = sample_id (ss ! 0) \<and>
              parentId (ss ! 2) = sample_id (ss ! 0)
      then SOMA_NEUROMORPHO_THREE_POINT_CYLINDERS
      else SOMA_CYLINDERS)"

text \<open>
  The conditions under which the specification has the classifier fail. A soma sample's
  parent must be absent or a soma sample; a soma sample with more than one child must not
  have more than one soma child; and, for the cylinders, at most one soma sample has no
  parent. The single-point soma checks the first condition only, the three-point soma and
  the empty soma none.
\<close>

definition parent_is_soma :: "(u32 \<rightharpoonup> Sample) \<Rightarrow> Sample \<Rightarrow> bool" where
  "parent_is_soma sm s =
     (parentId s = SWC_ROOT \<or>
      (case sm (parentId s) of None \<Rightarrow> False | Some p \<Rightarrow> sample_type p = SECTION_SOMA))"

definition soma_children :: "(u32 \<rightharpoonup> Sample) \<Rightarrow> u32 list \<Rightarrow> u32 list" where
  "soma_children sm cs =
     filter (\<lambda>i. case sm i of None \<Rightarrow> False | Some c \<Rightarrow> sample_type c = SECTION_SOMA) cs"

definition soma_bifurcates :: "(u32 \<rightharpoonup> Sample) \<Rightarrow> (u32 \<rightharpoonup> u32 list) \<Rightarrow> Sample \<Rightarrow> bool" where
  "soma_bifurcates sm ch s =
     (case ch (sample_id s) of
        None \<Rightarrow> False
      | Some cs \<Rightarrow> length cs > 1 \<and> length (soma_children sm cs) > 1)"

definition soma_accepted :: "(u32 \<rightharpoonup> Sample) \<Rightarrow> (u32 \<rightharpoonup> u32 list) \<Rightarrow> Sample list \<Rightarrow> bool" where
  "soma_accepted sm ch ss =
     (if soma_variant ss = SOMA_UNDEFINED then True
      else if soma_variant ss = SOMA_SINGLE_POINT then parent_is_soma sm (ss ! 0)
      else if soma_variant ss = SOMA_NEUROMORPHO_THREE_POINT_CYLINDERS then True
      else list_all (\<lambda>s. parent_is_soma sm s \<and> \<not> soma_bifurcates sm ch s) ss \<and>
           \<not> length (filter (\<lambda>s. parentId s = SWC_ROOT) ss) > 1)"

text \<open>
  The warnings of the classifier: those of the conformance check, for the three-point
  soma only.
\<close>

definition soma_warnings :: "Constants \<Rightarrow> Sample list \<Rightarrow> Warning list" where
  "soma_warnings k ss =
     (if soma_variant ss = SOMA_NEUROMORPHO_THREE_POINT_CYLINDERS
      then checkNeuromorph3PointSoma k (ss ! 0) (ss ! 1) (ss ! 2) else [])"

section \<open>What the first loop accepts and builds\<close>

text \<open>
  The checks of the first loop on one sample, the two filters that feed \<open>soma_samples\<close>
  and \<open>root_samples\<close>, and the ids of the samples with a given parent, in source order.
\<close>

definition valid_sample :: "Constants \<Rightarrow> Sample \<Rightarrow> bool" where
  "valid_sample k s =
     (parentId s \<noteq> sample_id s \<and>
      \<not> (sample_type s \<ge> SECTION_OUT_OF_RANGE_START k \<or> sample_type s \<le> 0))"

definition is_soma_sample :: "Sample \<Rightarrow> bool" where
  "is_soma_sample s = (sample_type s = SECTION_SOMA)"

definition is_root_sample :: "Sample \<Rightarrow> bool" where
  "is_root_sample s = (parentId s = SWC_ROOT \<or> sample_type s = SECTION_SOMA)"

definition children_of :: "Sample list \<Rightarrow> u32 \<Rightarrow> u32 list" where
  "children_of xs p = map sample_id (filter (\<lambda>s. parentId s = p) xs)"

section \<open>Samples up to their line numbers\<close>

text \<open>
  A line that moves in the file keeps its fields and changes its line number: two sample
  lists hold the same lines when they agree once the line numbers are erased.
\<close>

definition erase_line :: "Sample \<Rightarrow> Sample" where
  "erase_line s = s\<lparr>lineNumber := 0\<rparr>"

definition erase_lines :: "(u32 \<rightharpoonup> Sample) \<Rightarrow> (u32 \<rightharpoonup> Sample)" where
  "erase_lines sm = (\<lambda>i. map_option erase_line (sm i))"

section \<open>The invariant of the assembly\<close>

text \<open>
  What holds of \<open>morph_\<close> and \<open>declared_to_swc\<close> between two calls of \<open>appendSection\<close>: the
  soma is untouched; every declared id maps to a section that exists and ends with the point
  of the sample of that id; no section is empty; and a section appended to a parent starts
  with the last point of that parent.
\<close>

definition assembly_invariant ::
  "(u32 \<rightharpoonup> Sample) \<Rightarrow> Soma \<Rightarrow> Morphology \<times> (u32 \<rightharpoonup> nat) \<Rightarrow> bool" where
  "assembly_invariant sm so st =
     (case st of (m, declared) \<Rightarrow>
        soma m = so \<and>
        (\<forall>i h. declared i = Some h \<longrightarrow>
           h < length (sections m) \<and>
           (\<exists>s. sm i = Some s \<and> last (section_points (sections m ! h)) = point s)) \<and>
        (\<forall>i < length (sections m). section_points (sections m ! i) \<noteq> []) \<and>
        (\<forall>i < length (sections m). \<forall>h. section_parent (sections m ! i) = Some h \<longrightarrow>
           h < i \<and>
           hd (section_points (sections m ! i)) = last (section_points (sections m ! h))))"

section \<open>Scenarios\<close>

text \<open>
  Sample lists, files and results of the scenarios: the three-point soma whose second
  child is off along \<open>y\<close> (S3); a three-point soma with its children at the centre, under
  an arithmetic that rounds \<open>16777216 - 1/2\<close> and \<open>16777216 + 1/2\<close> to \<open>16777216\<close>, as the
  32-bit \<open>float\<close> does; a soma of two cylinders; one soma sample whose parent is a neurite;
  the bifurcation at sample 3 (S5); and a file in which sample 3 precedes its parent,
  sample 2 (S6), with the file that has the two lines in the other order.
\<close>

definition test_sample :: "u32 \<Rightarrow> u32 \<Rightarrow> int \<Rightarrow> Point \<Rightarrow> u32 \<Rightarrow> Sample" where
  "test_sample l i t p parent =
     \<lparr>sample_id = i, sample_type = t, point = p, diameter = 2, parentId = parent, lineNumber = l\<rparr>"






definition cylinder_soma :: "Sample list" where
  "cylinder_soma = [test_sample 1 1 1 (0, 0, 0) SWC_ROOT, test_sample 2 2 1 (1, 1, 1) 1]"

definition cylinder_soma_indices :: Indices where
  "cylinder_soma_indices =
     \<lparr>soma_samples = cylinder_soma, root_samples = cylinder_soma,
      samples_map = [1 \<mapsto> test_sample 1 1 1 (0, 0, 0) SWC_ROOT,
                     2 \<mapsto> test_sample 2 2 1 (1, 1, 1) 1],
      children_map = [SWC_ROOT \<mapsto> [1], 1 \<mapsto> [2]]\<rparr>"

definition neurite_parent_soma :: "Sample list" where
  "neurite_parent_soma = [test_sample 1 1 2 (0, 0, 0) SWC_ROOT, test_sample 2 2 1 (1, 1, 1) 1]"

definition scenario_S5 :: "Sample list" where
  "scenario_S5 = [test_sample 1 1 1 (0, 0, 0) SWC_ROOT, test_sample 2 2 2 (1, 0, 0) 1,
                  test_sample 3 3 2 (2, 0, 0) 2, test_sample 4 4 2 (3, 0, 0) 3,
                  test_sample 5 5 2 (2, 1, 0) 3]"

definition scenario_S5_morphology :: Morphology where
  "scenario_S5_morphology =
     \<lparr>soma = \<lparr>soma_type = SOMA_SINGLE_POINT, soma_points = [(0, 0, 0)], soma_diameters = [2]\<rparr>,
      sections =
        [\<lparr>section_parent = None, section_points = [(1, 0, 0), (2, 0, 0)],
          section_diameters = [2, 2], section_type = 2\<rparr>,
         \<lparr>section_parent = Some 0, section_points = [(2, 0, 0), (3, 0, 0)],
          section_diameters = [2, 2], section_type = 2\<rparr>,
         \<lparr>section_parent = Some 0, section_points = [(2, 0, 0), (2, 1, 0)],
          section_diameters = [2, 2], section_type = 2\<rparr>]\<rparr>"

definition forward_reference_file :: string where
  "forward_reference_file = ''1 1 0 0 0 1 -1\<newline>3 2 2 0 0 1 2\<newline>2 2 1 0 0 1 1\<newline>''"

definition forward_reference_reordered_file :: string where
  "forward_reference_reordered_file =
     ''1 1 0 0 0 1 -1\<newline>2 2 1 0 0 1 1\<newline>3 2 2 0 0 1 2\<newline>''"

definition forward_reference :: "Sample list" where
  "forward_reference = [test_sample 1 1 1 (0, 0, 0) SWC_ROOT, test_sample 2 3 2 (2, 0, 0) 2,
                        test_sample 3 2 2 (1, 0, 0) 1]"

definition forward_reference_reordered :: "Sample list" where
  "forward_reference_reordered = [test_sample 1 1 1 (0, 0, 0) SWC_ROOT,
                        test_sample 2 2 2 (1, 0, 0) 1, test_sample 3 3 2 (2, 0, 0) 2]"

definition forward_reference_morphology :: Morphology where
  "forward_reference_morphology =
     \<lparr>soma = \<lparr>soma_type = SOMA_SINGLE_POINT, soma_points = [(0, 0, 0)], soma_diameters = [2]\<rparr>,
      sections =
        [\<lparr>section_parent = None, section_points = [(1, 0, 0), (2, 0, 0)],
          section_diameters = [2, 2], section_type = 2\<rparr>]\<rparr>"

section \<open>The cursor after \<open>skip_to\<close>\<close>

text \<open>
  C9. The claim: after \<open>skip_to(c)\<close> the cursor is at the next occurrence of \<open>c\<close>, or at the
  end of the buffer when there is none. On the buffer \<open>#abc\<close>, which holds no newline, with
  the cursor at 0, \<open>skip_to('\n')\<close> leaves the cursor at \<open>npos\<close> (18446744073709551615),
  not at the end of the buffer (4): the assignment of \<open>contents_.size()\<close> is overwritten.
\<close>

theorem skip_to_not_found_is_npos:
  "pos (skip_to (CHR 0x0A) \<lparr>pos = 0, line = 1, contents = ''#abc''\<rparr>) = 18446744073709551615
   \<and> pos (skip_to (CHR 0x0A) \<lparr>pos = 0, line = 1, contents = ''#abc''\<rparr>)
       \<noteq> length (contents \<lparr>pos = 0, line = 1, contents = ''#abc''\<rparr>)"
  by (simp add: skip_to_def find_first_of_def npos_def)

section \<open>Records that span lines\<close>

text \<open>
  C5. The claim: every sample takes its seven fields from one line, and a line that does not
  hold exactly seven fields makes the load fail; a short line is never completed from the
  line after it. The file below has four fields on its first line and three on its second.
  \<open>readSamples\<close> returns one sample for it, made of both lines, and the load succeeds:
  \<open>advance_to_number\<close> consumes the newline between the fields, and the shape of the line
  is checked only after the seventh field.
\<close>

theorem short_line_completed_from_next_line:
  "readSamples test_Constants ''1 1 0 0\<newline>0 1 -1\<newline>'' =
     Some (Inr [\<lparr>sample_id = 1, sample_type = 1, point = (0, 0, 0), diameter = 2,
                 parentId = SWC_ROOT, lineNumber = 1\<rparr>])
   \<and> load 10 test_Constants ''1 1 0 0\<newline>0 1 -1\<newline>'' =
     Some (Inr (\<lparr>soma = \<lparr>soma_type = SOMA_SINGLE_POINT, soma_points = [(0, 0, 0)],
                         soma_diameters = [2]\<rparr>, sections = []\<rparr>, []))"
  by code_simp

section \<open>The sentinel \<open>SWC_ROOT\<close> among the ids\<close>

text \<open>
  C6. The claim: the load fails with \<open>ERROR_SELF_PARENT\<close> exactly when a record's parent
  field equals its id field, and never for a record whose parent field is \<open>-1\<close>. The record
  below has id 4294967293 and parent \<open>-1\<close>. The cast of the id to \<open>unsigned int\<close> gives
  \<open>0xFFFFFFFD\<close>, which is \<open>SWC_ROOT\<close>, the value stored for the parent \<open>-1\<close>: the load fails
  with \<open>ERROR_SELF_PARENT\<close>.
\<close>

theorem root_record_reported_as_self_parent:
  "load 10 test_Constants ''4294967293 1 0 0 0 1 -1\<newline>'' = Some (Inl ERROR_SELF_PARENT)"
  by code_simp

text \<open>
  C7. The claim: a parent field that is a non-negative integer and is no record's id makes
  the load fail with \<open>ERROR_MISSING_PARENT\<close>. In the file below the second record has the
  parent 4294967293, which is no record's id. The cast stores it as \<open>SWC_ROOT\<close>, so the
  record is taken for a root: the load succeeds, with the warning of a disconnected neurite.
\<close>

theorem dangling_parent_accepted_as_root:
  "load 10 test_Constants ''1 1 0 0 0 1 -1\<newline>2 2 0 0 1 1 4294967293\<newline>'' =
     Some (Inr (\<lparr>soma = \<lparr>soma_type = SOMA_SINGLE_POINT, soma_points = [(0, 0, 0)],
                         soma_diameters = [2]\<rparr>, sections = []\<rparr>,
                [DISCONNECTED_NEURITE]))"
  by code_simp

section \<open>The diagnostic of a repeated id\<close>

text \<open>
  C10. The claim: in the duplicate-id branch the index of \<open>samples[sample.id]\<close> is within
  the bounds of the vector. The file below has two records with id 5: the vector has two
  elements and is read at index 5.
\<close>

theorem repeated_id_reads_past_the_vector:
  "readSamples test_Constants ''5 1 0 0 0 1 -1\<newline>5 1 1 1 1 1 -1\<newline>'' =
     Some (Inr [\<lparr>sample_id = 5, sample_type = 1, point = (0, 0, 0), diameter = 2,
                 parentId = SWC_ROOT, lineNumber = 1\<rparr>,
                \<lparr>sample_id = 5, sample_type = 1, point = (1, 1, 1), diameter = 2,
                 parentId = SWC_ROOT, lineNumber = 2\<rparr>])
   \<and> vector_at [\<lparr>sample_id = 5, sample_type = 1, point = (0, 0, 0), diameter = 2,
                  parentId = SWC_ROOT, lineNumber = 1\<rparr>,
                 \<lparr>sample_id = 5, sample_type = 1, point = (1, 1, 1), diameter = 2,
                  parentId = SWC_ROOT, lineNumber = 2\<rparr>] (unat (5 :: u32)) = None
   \<and> load 10 test_Constants ''5 1 0 0 0 1 -1\<newline>5 1 1 1 1 1 -1\<newline>'' =
     Some (Inl VECTOR_OUT_OF_BOUNDS)"
  by code_simp

section \<open>Lemmas on the soma\<close>


lemma soma_cylinders_points:
  "soma_cylinders k ch ss (c, ps, ds, sm) = Inr (c', ps', ds', sm') \<Longrightarrow>
     ps' = ps @ map point ss \<and> ds' = ds @ map diameter ss"
proof (induction ss arbitrary: c ps ds sm)
  case Nil
  then show ?case by simp
next
  case (Cons s ss)
  from Cons.prems obtain c1 sm1 where
    "soma_cylinders k ch ss (c1, ps @ [point s], ds @ [diameter s], sm1) = Inr (c', ps', ds', sm')"
    by (auto split: sum.splits if_splits option.splits prod.splits)
  from Cons.IH [OF this] show ?case by simp
qed

lemma list_upto3_cases:
  "(xs = [] \<Longrightarrow> P) \<Longrightarrow> (\<And>a. xs = [a] \<Longrightarrow> P) \<Longrightarrow> (\<And>a b. xs = [a, b] \<Longrightarrow> P) \<Longrightarrow>
   (\<And>a b c. xs = [a, b, c] \<Longrightarrow> P) \<Longrightarrow> (\<And>a b c d r. xs = a # b # c # d # r \<Longrightarrow> P) \<Longrightarrow> P"
  by (metis list.exhaust)

lemma build_soma_cylinders_result:
  assumes "build_soma_cylinders k sm ch soma0 ss = Inr (so, sm', w)"
  shows "so = \<lparr>soma_type = SOMA_CYLINDERS, soma_points = soma_points soma0 @ map point ss,
               soma_diameters = soma_diameters soma0 @ map diameter ss\<rparr> \<and> w = []"
proof -
  from assms obtain c ps ds where
    "soma_cylinders k ch ss (0, soma_points soma0, soma_diameters soma0, sm) = Inr (c, ps, ds, sm')"
    and so: "so = \<lparr>soma_type = SOMA_CYLINDERS, soma_points = ps, soma_diameters = ds\<rparr>" "w = []"
    unfolding build_soma_cylinders_def by (auto split: sum.splits if_splits)
  from soma_cylinders_points [OF this(1)] so show ?thesis by simp
qed


lemma build_soma_variant:
  assumes "build_soma k sm ch empty_Soma ss = Inr (so, sm', w)"
  shows "so = \<lparr>soma_type = soma_variant ss, soma_points = map point ss,
               soma_diameters = map diameter ss\<rparr>"
proof (cases ss rule: list_upto3_cases)
  case 1
  with assms show ?thesis by (auto simp: build_soma_def soma_variant_def empty_Soma_def)
next
  case (2 a)
  with assms show ?thesis
    by (auto simp: build_soma_def soma_variant_def split: sum.splits if_splits option.splits)
next
  case (3 a b)
  with assms build_soma_cylinders_result [of k sm ch empty_Soma ss so sm' w]
  show ?thesis by (auto simp: build_soma_def soma_variant_def empty_Soma_def)
next
  case (4 a b c)
  with assms build_soma_cylinders_result [of k sm ch empty_Soma ss so sm' w]
  show ?thesis by (auto simp: build_soma_def soma_variant_def empty_Soma_def split: if_splits)
next
  case (5 a b c d r)
  with assms build_soma_cylinders_result [of k sm ch empty_Soma ss so sm' w]
  show ?thesis by (auto simp: build_soma_def soma_variant_def empty_Soma_def)
qed

section \<open>Lemmas on the first and the second loop\<close>

lemma index_sample_Inr:
  assumes "index_sample k all st s = Inr (st', w)"
  shows "valid_sample k s \<and> samples_map st (sample_id s) = None \<and>
         soma_samples st' = soma_samples st @ filter is_soma_sample [s] \<and>
         root_samples st' = root_samples st @ filter is_root_sample [s] \<and>
         samples_map st' = (samples_map st)(sample_id s \<mapsto> s) \<and>
         children_map st' = (children_map st)(parentId s \<mapsto>
            (case children_map st (parentId s) of None \<Rightarrow> [] | Some cs \<Rightarrow> cs) @ [sample_id s])"
  using assms unfolding index_sample_def valid_sample_def is_soma_sample_def is_root_sample_def Let_def
  by (auto split: if_splits option.splits)

lemma index_sample_succeeds:
  assumes "valid_sample k s" "samples_map st (sample_id s) = None"
  shows "\<exists>st' w. index_sample k all st s = Inr (st', w)"
  using assms unfolding index_sample_def valid_sample_def Let_def
  by (auto split: if_splits option.splits)

lemma index_samples_Inr:
  assumes "index_samples k all st xs = Inr (st', w)"
  shows "list_all (valid_sample k) xs \<and> distinct (map sample_id xs) \<and>
         (\<forall>s \<in> set xs. samples_map st (sample_id s) = None) \<and>
         soma_samples st' = soma_samples st @ filter is_soma_sample xs \<and>
         root_samples st' = root_samples st @ filter is_root_sample xs \<and>
         (\<forall>i s. samples_map st' i = Some s \<longleftrightarrow>
                samples_map st i = Some s \<or> (s \<in> set xs \<and> sample_id s = i)) \<and>
         (\<forall>p. children_map st' p =
                (if children_of xs p = [] then children_map st p
                 else Some ((case children_map st p of None \<Rightarrow> [] | Some cs \<Rightarrow> cs) @
                            children_of xs p)))"
  using assms
proof (induction xs arbitrary: st st' w)
  case Nil
  then show ?case by (simp add: children_of_def)
next
  case (Cons x xs)
  from Cons.prems obtain st1 w1 w2 where
    one: "index_sample k all st x = Inr (st1, w1)" and
    rest: "index_samples k all st1 xs = Inr (st', w2)"
    by (auto split: sum.splits prod.splits)
  note a = index_sample_Inr [OF one]
  note b = Cons.IH [OF rest]
  have m1: "samples_map st1 = (samples_map st)(sample_id x \<mapsto> x)" using a by simp
  have none: "samples_map st (sample_id x) = None" using a by simp
  have "list_all (valid_sample k) (x # xs)" using a b by simp
  moreover have "distinct (map sample_id (x # xs))"
    using b m1 by (auto split: if_splits)
  moreover have "\<forall>s \<in> set (x # xs). samples_map st (sample_id s) = None"
    using b m1 none by (auto split: if_splits)
  moreover have "soma_samples st' = soma_samples st @ filter is_soma_sample (x # xs)"
    using a b by simp
  moreover have "root_samples st' = root_samples st @ filter is_root_sample (x # xs)"
    using a b by simp
  moreover have "\<forall>i s. samples_map st' i = Some s \<longleftrightarrow>
                samples_map st i = Some s \<or> (s \<in> set (x # xs) \<and> sample_id s = i)"
    using b m1 none by (auto split: if_splits)
  moreover have "\<forall>p. children_map st' p =
                (if children_of (x # xs) p = [] then children_map st p
                 else Some ((case children_map st p of None \<Rightarrow> [] | Some cs \<Rightarrow> cs) @
                            children_of (x # xs) p))"
    using a b by (auto simp: children_of_def fun_upd_apply split: option.splits)
  ultimately show ?case by blast
qed

lemma index_samples_succeeds:
  assumes "list_all (valid_sample k) xs" "distinct (map sample_id xs)"
    "\<forall>s \<in> set xs. samples_map st (sample_id s) = None"
  shows "\<exists>st' w. index_samples k all st xs = Inr (st', w)"
  using assms
proof (induction xs arbitrary: st)
  case Nil
  then show ?case by simp
next
  case (Cons x xs)
  from Cons.prems index_sample_succeeds [of k x st all] obtain st1 w1 where
    one: "index_sample k all st x = Inr (st1, w1)" by auto
  from index_sample_Inr [OF one] have m1: "samples_map st1 = (samples_map st)(sample_id x \<mapsto> x)"
    by simp
  have "\<forall>s \<in> set xs. samples_map st1 (sample_id s) = None"
  proof
    fix s assume s: "s \<in> set xs"
    then have "sample_id s \<noteq> sample_id x" using Cons.prems(2) by (auto simp: image_iff)
    moreover have "samples_map st (sample_id s) = None" using Cons.prems(3) s by simp
    ultimately show "samples_map st1 (sample_id s) = None" using m1 by simp
  qed
  with Cons.IH [of st1] Cons.prems obtain st' w where
    "index_samples k all st1 xs = Inr (st', w)" by auto
  with one show ?case by simp
qed

lemma check_missing_parents_Inr:
  "check_missing_parents sm xs = Inr u \<longleftrightarrow>
     (\<forall>s \<in> set xs. parentId s = SWC_ROOT \<or> sm (parentId s) \<noteq> None)"
  by (induction xs) auto

lemma map_eq_by_Some:
  assumes "\<And>i s. (m i = Some s) = (m' i = Some s)"
  shows "m = m'"
proof (rule ext)
  fix i
  show "m i = m' i"
  proof (cases "m i")
    case None
    show ?thesis
    proof (cases "m' i")
      case (Some s)
      with assms [of i s] have "m i = Some s" by simp
      with None show ?thesis by simp
    qed (simp add: None)
  next
    case (Some s)
    with assms [of i s] show ?thesis by simp
  qed
qed

section \<open>Lemmas on the assembly\<close>

lemma combine_samples_hd:
  "combine_samples n sm ch i ps ds = Some (Inr (j, ps', ds')) \<Longrightarrow>
   sm i = Some si \<Longrightarrow> sm j = Some sj \<Longrightarrow>
   hd (ps' @ [point sj]) = hd (ps @ [point si])"
proof (induction n arbitrary: i ps ds si)
  case 0
  then show ?case by simp
next
  case (Suc n)
  show ?case
  proof (cases "get_child_count ch i = 1")
    case False
    with Suc.prems show ?thesis by auto
  next
    case True
    with Suc.prems obtain c cs child where
      c: "ch i = Some (c # cs)" "sm c = Some child" and
      r: "(sample_type si \<noteq> sample_type child \<and> j = i \<and> ps' = ps \<and> ds' = ds) \<or>
          (sample_type si = sample_type child \<and>
           combine_samples n sm ch c (ps @ [point si]) (ds @ [diameter si]) =
             Some (Inr (j, ps', ds')))"
      by (auto split: option.splits list.splits if_splits)
    from r show ?thesis
    proof
      assume "sample_type si \<noteq> sample_type child \<and> j = i \<and> ps' = ps \<and> ds' = ds"
      with Suc.prems show ?thesis by simp
    next
      assume "sample_type si = sample_type child \<and>
           combine_samples n sm ch c (ps @ [point si]) (ds @ [diameter si]) =
             Some (Inr (j, ps', ds'))"
      then have "hd (ps' @ [point sj]) = hd ((ps @ [point si]) @ [point child])"
        using Suc.IH [of c "ps @ [point si]" "ds @ [diameter si]" child] c Suc.prems by simp
      then show ?thesis by (simp add: hd_append)
    qed
  qed
qed

lemma appendSection_invariant:
  assumes inv: "assembly_invariant sm so st"
    and j: "sm j = Some sj"
    and pts: "pts \<noteq> []" "last pts = point sj"
    and start: "is_root \<or> (\<exists>sp. sm parent_id = Some sp \<and> hd pts = point sp)"
    and app: "appendSection is_root pts ds j parent_id ty st = Inr st'"
  shows "assembly_invariant sm so st'"
proof -
  obtain m declared where st: "st = (m, declared)" by (cases st)
  let ?n = "length (sections m)"
  from app st obtain par where
    par: "par = None \<and> is_root \<or> (\<exists>h. par = Some h \<and> \<not> is_root \<and> declared parent_id = Some h)" and
    st': "st' = (m\<lparr>sections := sections m @
                 [\<lparr>section_parent = par, section_points = pts,
                   section_diameters = ds, section_type = ty\<rparr>]\<rparr>, declared(j \<mapsto> ?n))"
    unfolding appendSection_def appendRootSection_def Section_appendSection_def
    by (auto split: if_splits option.splits)
  define new where "new = \<lparr>section_parent = par, section_points = pts,
                   section_diameters = ds, section_type = ty\<rparr>"
  define m' where "m' = m\<lparr>sections := sections m @ [new]\<rparr>"
  have st'': "st' = (m', declared(j \<mapsto> ?n))" using st' by (simp add: m'_def new_def)
  have sec: "sections m' = sections m @ [new]" and som: "soma m' = soma m"
    by (simp_all add: m'_def)
  have new: "section_parent new = par" "section_points new = pts" by (simp_all add: new_def)
  from inv st have
    i0: "soma m = so" and
    i1: "\<And>i h. declared i = Some h \<Longrightarrow> h < ?n \<and>
           (\<exists>s. sm i = Some s \<and> last (section_points (sections m ! h)) = point s)" and
    i2: "\<And>i. i < ?n \<Longrightarrow> section_points (sections m ! i) \<noteq> []" and
    i3: "\<And>i h. i < ?n \<Longrightarrow> section_parent (sections m ! i) = Some h \<Longrightarrow> h < i \<and>
           hd (section_points (sections m ! i)) = last (section_points (sections m ! h))"
    unfolding assembly_invariant_def by auto
  have newpar: "h < ?n \<and> hd pts = last (section_points (sections m ! h))" if "par = Some h" for h
  proof -
    from that par have nr: "\<not> is_root" and d: "declared parent_id = Some h" by auto
    from i1 [OF d] obtain s where "h < ?n" "sm parent_id = Some s"
      "last (section_points (sections m ! h)) = point s" by auto
    with start nr show ?thesis by auto
  qed
  have c1: "soma m' = so" using i0 som by simp
  have c2: "h < length (sections m') \<and>
       (\<exists>s. sm i = Some s \<and> last (section_points (sections m' ! h)) = point s)"
    if "(declared(j \<mapsto> ?n)) i = Some h" for i h
  proof (cases "i = j")
    case True
    with that have "h = ?n" by simp
    then show ?thesis using True j pts new by (simp add: sec)
  next
    case False
    with that have "declared i = Some h" by simp
    from i1 [OF this] show ?thesis by (auto simp: sec nth_append)
  qed
  have c3: "section_points (sections m' ! i) \<noteq> []" if "i < length (sections m')" for i
    using that i2 [of i] pts new by (cases "i < ?n") (auto simp: sec nth_append)
  have c4: "h < i \<and> hd (section_points (sections m' ! i)) =
                    last (section_points (sections m' ! h))"
    if "i < length (sections m')" "section_parent (sections m' ! i) = Some h" for i h
  proof (cases "i < ?n")
    case True
    with that have "section_parent (sections m ! i) = Some h" by (simp add: sec nth_append)
    from i3 [OF True this] True show ?thesis by (auto simp: sec nth_append)
  next
    case False
    with that have i: "i = ?n" by (simp add: sec)
    with that have "par = Some h" by (simp add: sec new)
    from newpar [OF this] i show ?thesis by (simp add: sec nth_append new)
  qed
  show ?thesis
    unfolding assembly_invariant_def st'' using c1 c2 c3 c4 by simp
qed

lemma assembleChildren_invariant:
  assumes step: "\<And>i st st'. assembly_invariant sm so st \<Longrightarrow>
      assembleSections n sm ch i parent sp sd False st = Some (Inr st') \<Longrightarrow>
      assembly_invariant sm so st'"
  shows "assembly_invariant sm so st \<Longrightarrow>
     assembleChildren n sm ch cs parent sp sd st = Some (Inr st') \<Longrightarrow>
     assembly_invariant sm so st'"
proof (induction cs arbitrary: st)
  case Nil
  then show ?case by simp
next
  case (Cons c cs)
  from Cons.prems(2) obtain st1 where
    one: "assembleSections n sm ch c parent sp sd False st = Some (Inr st1)" and
    rest: "assembleChildren n sm ch cs parent sp sd st1 = Some (Inr st')"
    by (auto split: option.splits sum.splits)
  from step [OF Cons.prems(1) one] have "assembly_invariant sm so st1" .
  from Cons.IH [OF this rest] show ?case .
qed

lemma assembleSections_invariant:
  "assembly_invariant sm so st \<Longrightarrow>
   is_root \<or> (\<exists>s. sm parent = Some s \<and> sp = point s) \<Longrightarrow>
   assembleSections n sm ch i parent sp sd is_root st = Some (Inr st') \<Longrightarrow>
   assembly_invariant sm so st'"
proof (induction n arbitrary: i parent sp sd is_root st st')
  case 0
  then show ?case by simp
next
  case (Suc n)
  let ?dup = "\<not> is_root \<and> point (the (sm i)) \<noteq> sp"
  from Suc.prems(3) obtain sample0 where s0: "sm i = Some sample0"
    by (auto split: option.splits)
  from Suc.prems(3) s0 obtain j ps0 ds0 where
    comb: "combine_samples n sm ch i (if ?dup then [sp] else [])
             (if ?dup then [sd] else []) = Some (Inr (j, ps0, ds0))"
    by (auto split: option.splits sum.splits)
  from Suc.prems(3) s0 comb obtain sample where sj: "sm j = Some sample"
    by (auto split: option.splits)
  from Suc.prems(3) s0 comb sj obtain st1 where
    app: "appendSection is_root (ps0 @ [point sample]) (ds0 @ [diameter sample]) j parent
            (sample_type sample) st = Inr st1"
    by (auto split: sum.splits)
  from Suc.prems(3) s0 comb sj app have
    rest: "(if get_child_count ch j = 0 then Some (Inr st1)
            else if get_child_count ch j = 1 then
              (case ch j of
                 Some (c # _) \<Rightarrow>
                   assembleSections n sm ch c j (point sample) (diameter sample) False st1
               | _ \<Rightarrow> Some (Inl OUT_OF_RANGE))
            else
              (case ch j of
                 Some cs \<Rightarrow> assembleChildren n sm ch cs j (point sample) (diameter sample) st1
               | None \<Rightarrow> Some (Inl OUT_OF_RANGE))) = Some (Inr st')"
    by simp
  have hd: "hd (ps0 @ [point sample]) = hd ((if ?dup then [sp] else []) @ [point sample0])"
    using combine_samples_hd [OF comb s0 sj] .
  have start: "is_root \<or> (\<exists>s. sm parent = Some s \<and> hd (ps0 @ [point sample]) = point s)"
    using Suc.prems(2) hd s0 by auto
  have inv1: "assembly_invariant sm so st1"
    using appendSection_invariant [OF Suc.prems(1) sj _ _ start app] by simp
  have next_start: "False \<or> (\<exists>s. sm j = Some s \<and> point sample = point s)"
    using sj by simp
  show ?case
  proof (cases "get_child_count ch j = 0")
    case True
    with rest inv1 show ?thesis by simp
  next
    case nz: False
    show ?thesis
    proof (cases "get_child_count ch j = 1")
      case True
      with rest nz obtain c cs where
        "assembleSections n sm ch c j (point sample) (diameter sample) False st1 = Some (Inr st')"
        by (auto split: option.splits list.splits)
      from Suc.IH [OF inv1 next_start this] show ?thesis .
    next
      case False
      with rest nz obtain cs where
        ch: "assembleChildren n sm ch cs j (point sample) (diameter sample) st1 = Some (Inr st')"
        by (auto split: option.splits)
      show ?thesis
      proof (rule assembleChildren_invariant [OF _ inv1 ch])
        fix i' st2 st3
        assume "assembly_invariant sm so st2"
          "assembleSections n sm ch i' j (point sample) (diameter sample) False st2 = Some (Inr st3)"
        from Suc.IH [OF this(1) next_start this(2)] show "assembly_invariant sm so st3" .
      qed
    qed
  qed
qed

lemma root_children_invariant:
  "assembly_invariant sm so st \<Longrightarrow>
   root_children n sm ch root_sample cs st = Some (Inr st') \<Longrightarrow>
   assembly_invariant sm so st'"
proof (induction cs arbitrary: st)
  case Nil
  then show ?case by simp
next
  case (Cons c cs)
  from Cons.prems(2) obtain child where child: "sm c = Some child"
    by (auto split: option.splits)
  show ?case
  proof (cases "sample_type child = SECTION_SOMA")
    case True
    with Cons.prems(2) child have "root_children n sm ch root_sample cs st = Some (Inr st')"
      by simp
    from Cons.IH [OF Cons.prems(1) this] show ?thesis .
  next
    case ns: False
    show ?thesis
    proof (cases "sample_type root_sample = SECTION_SOMA")
      case True
      with Cons.prems(2) child ns obtain p0 d0 st1 where
        one: "assembleSections n sm ch c (sample_id root_sample) p0 d0 True st = Some (Inr st1)" and
        rest: "root_children n sm ch root_sample cs st1 = Some (Inr st')"
        by (auto split: option.splits sum.splits list.splits prod.splits)
      from assembleSections_invariant [OF Cons.prems(1) _ one] have "assembly_invariant sm so st1"
        by simp
      from Cons.IH [OF this rest] show ?thesis .
    next
      case False
      with Cons.prems(2) child ns have
        "assembleSections n sm ch (sample_id root_sample) SWC_ROOT (point root_sample)
           (diameter root_sample) True st = Some (Inr st')"
        by simp
      from assembleSections_invariant [OF Cons.prems(1) _ this] show ?thesis by simp
    qed
  qed
qed

lemma root_loop_invariant:
  "assembly_invariant sm so st \<Longrightarrow>
   root_loop n sm ch roots st = Some (Inr (st', ws)) \<Longrightarrow>
   assembly_invariant sm so st'"
proof (induction roots arbitrary: st ws)
  case Nil
  then show ?case by simp
next
  case (Cons r roots)
  show ?case
  proof (cases "ch (sample_id r)")
    case None
    with Cons.prems(2) have "root_loop n sm ch roots st = Some (Inr (st', ws))" by simp
    from Cons.IH [OF Cons.prems(1) this] show ?thesis .
  next
    case (Some cs)
    with Cons.prems(2) obtain st1 ws1 where
      one: "root_children n sm ch r cs st = Some (Inr st1)" and
      rest: "root_loop n sm ch roots st1 = Some (Inr (st', ws1))"
      by (auto split: option.splits sum.splits prod.splits)
    from root_children_invariant [OF Cons.prems(1) one] have "assembly_invariant sm so st1" .
    from Cons.IH [OF this rest] show ?thesis .
  qed
qed

lemma buildSWC_Inr:
  assumes "buildSWC n k samples = Some (Inr (m, w))"
  shows "\<exists>ix w1 so sm' w2 d w3.
           index_samples k samples empty_Indices samples = Inr (ix, w1) \<and>
           check_missing_parents (samples_map ix) samples = Inr () \<and>
           build_soma k (samples_map ix) (children_map ix) empty_Soma (soma_samples ix) =
             Inr (so, sm', w2) \<and>
           root_loop n sm' (children_map ix) (root_samples ix)
             (\<lparr>soma = so, sections = []\<rparr>, Map.empty) = Some (Inr ((m, d), w3)) \<and>
           w = w1 @ w2 @ w3"
  using assms unfolding buildSWC_def
  by (auto split: sum.splits option.splits prod.splits)

lemma buildSWC_invariant:
  assumes "buildSWC n k samples = Some (Inr (m, w))"
  shows "\<exists>ix w1 so sm' w2 d.
           index_samples k samples empty_Indices samples = Inr (ix, w1) \<and>
           build_soma k (samples_map ix) (children_map ix) empty_Soma (soma_samples ix) =
             Inr (so, sm', w2) \<and>
           assembly_invariant sm' so (m, d)"
proof -
  from buildSWC_Inr [OF assms] obtain ix w1 so sm' w2 d w3 where
    a: "index_samples k samples empty_Indices samples = Inr (ix, w1)"
       "build_soma k (samples_map ix) (children_map ix) empty_Soma (soma_samples ix) =
             Inr (so, sm', w2)"
       "root_loop n sm' (children_map ix) (root_samples ix)
             (\<lparr>soma = so, sections = []\<rparr>, Map.empty) = Some (Inr ((m, d), w3))"
    by blast
  have "assembly_invariant sm' so (\<lparr>soma = so, sections = []\<rparr>, Map.empty)"
    by (simp add: assembly_invariant_def)
  from root_loop_invariant [OF this a(3)] a show ?thesis by blast
qed

section \<open>When the classifier accepts\<close>

lemma soma_bifurcations_closed:
  "set ids \<subseteq> dom sm \<Longrightarrow>
   soma_bifurcations k sm ids acc = (acc @ map (\<lambda>i. the (sm i)) (soma_children sm ids), sm)"
proof (induction ids arbitrary: acc)
  case Nil
  then show ?case by (simp add: soma_children_def)
next
  case (Cons i ids)
  from Cons.prems obtain s where s: "sm i = Some s" by auto
  from Cons.prems have "set ids \<subseteq> dom sm" by simp
  from Cons.IH [OF this] s show ?case by (simp add: soma_children_def)
qed

lemma soma_cylinders_step:
  assumes closed: "\<forall>i cs. ch i = Some cs \<longrightarrow> set cs \<subseteq> dom sm"
    and resolved: "parentId s = SWC_ROOT \<or> sm (parentId s) \<noteq> None"
  shows "soma_cylinders k ch (s # ss) (c, ps, ds, sm) =
     (if \<not> parent_is_soma sm s then Inl ERROR_SOMA_WITH_NEURITE_PARENT
      else if soma_bifurcates sm ch s then Inl ERROR_SOMA_BIFURCATION
      else soma_cylinders k ch ss
             (c + (if parentId s = SWC_ROOT then 1 else 0), ps @ [point s], ds @ [diameter s], sm))"
proof (cases "ch (sample_id s)")
  case None
  with resolved show ?thesis
    by (auto simp: parent_is_soma_def soma_bifurcates_def split: option.splits)
next
  case (Some cs)
  with closed have "set cs \<subseteq> dom sm" by blast
  from soma_bifurcations_closed [OF this, of k "[]"] Some resolved show ?thesis
    by (auto simp: parent_is_soma_def soma_bifurcates_def split: option.splits)
qed

lemma soma_cylinders_accepted:
  assumes closed: "\<forall>i cs. ch i = Some cs \<longrightarrow> set cs \<subseteq> dom sm"
    and resolved: "\<forall>s \<in> set ss. parentId s = SWC_ROOT \<or> sm (parentId s) \<noteq> None"
    and ok: "list_all (\<lambda>s. parent_is_soma sm s \<and> \<not> soma_bifurcates sm ch s) ss"
  shows "soma_cylinders k ch ss (c, ps, ds, sm) =
           Inr (c + length (filter (\<lambda>s. parentId s = SWC_ROOT) ss),
                ps @ map point ss, ds @ map diameter ss, sm)"
  using resolved ok
proof (induction ss arbitrary: c ps ds)
  case Nil
  then show ?case by simp
next
  case (Cons s ss)
  from Cons.prems have r: "parentId s = SWC_ROOT \<or> sm (parentId s) \<noteq> None" by simp
  from Cons.prems have "\<forall>s \<in> set ss. parentId s = SWC_ROOT \<or> sm (parentId s) \<noteq> None"
    "list_all (\<lambda>s. parent_is_soma sm s \<and> \<not> soma_bifurcates sm ch s) ss" by simp_all
  note ih = Cons.IH [OF this]
  from Cons.prems show ?case
    by (simp only: soma_cylinders_step [OF closed r]) (simp add: ih)
qed

lemma soma_cylinders_rejected:
  assumes closed: "\<forall>i cs. ch i = Some cs \<longrightarrow> set cs \<subseteq> dom sm"
    and resolved: "\<forall>s \<in> set ss. parentId s = SWC_ROOT \<or> sm (parentId s) \<noteq> None"
    and bad: "\<not> list_all (\<lambda>s. parent_is_soma sm s \<and> \<not> soma_bifurcates sm ch s) ss"
  shows "soma_cylinders k ch ss (c, ps, ds, sm) = Inl ERROR_SOMA_WITH_NEURITE_PARENT \<or>
         soma_cylinders k ch ss (c, ps, ds, sm) = Inl ERROR_SOMA_BIFURCATION"
  using resolved bad
proof (induction ss arbitrary: c ps ds)
  case Nil
  then show ?case by simp
next
  case (Cons s ss)
  from Cons.prems have r: "parentId s = SWC_ROOT \<or> sm (parentId s) \<noteq> None" by simp
  from Cons.prems have rs: "\<forall>s \<in> set ss. parentId s = SWC_ROOT \<or> sm (parentId s) \<noteq> None"
    by simp
  show ?case
  proof (cases "parent_is_soma sm s \<and> \<not> soma_bifurcates sm ch s")
    case True
    with Cons.prems have "\<not> list_all (\<lambda>s. parent_is_soma sm s \<and> \<not> soma_bifurcates sm ch s) ss"
      by simp
    from Cons.IH [OF rs this] True show ?thesis
      by (simp only: soma_cylinders_step [OF closed r]) simp
  next
    case False
    then show ?thesis by (simp only: soma_cylinders_step [OF closed r]) auto
  qed
qed

lemma build_soma_cylinders_closed:
  assumes closed: "\<forall>i cs. ch i = Some cs \<longrightarrow> set cs \<subseteq> dom sm"
    and resolved: "\<forall>s \<in> set ss. parentId s = SWC_ROOT \<or> sm (parentId s) \<noteq> None"
  shows "(list_all (\<lambda>s. parent_is_soma sm s \<and> \<not> soma_bifurcates sm ch s) ss \<and>
          \<not> length (filter (\<lambda>s. parentId s = SWC_ROOT) ss) > 1 \<longrightarrow>
            build_soma_cylinders k sm ch empty_Soma ss =
              Inr (\<lparr>soma_type = SOMA_CYLINDERS, soma_points = map point ss,
                    soma_diameters = map diameter ss\<rparr>, sm, [])) \<and>
         (\<not> (list_all (\<lambda>s. parent_is_soma sm s \<and> \<not> soma_bifurcates sm ch s) ss \<and>
          \<not> length (filter (\<lambda>s. parentId s = SWC_ROOT) ss) > 1) \<longrightarrow>
            build_soma_cylinders k sm ch empty_Soma ss = Inl ERROR_SOMA_WITH_NEURITE_PARENT \<or>
            build_soma_cylinders k sm ch empty_Soma ss = Inl ERROR_SOMA_BIFURCATION \<or>
            build_soma_cylinders k sm ch empty_Soma ss = Inl ERROR_MULTIPLE_SOMATA)"
proof (cases "list_all (\<lambda>s. parent_is_soma sm s \<and> \<not> soma_bifurcates sm ch s) ss")
  case True
  from soma_cylinders_accepted [OF closed resolved True, of k 0 "[]" "[]"] True
  show ?thesis by (simp add: build_soma_cylinders_def empty_Soma_def)
next
  case False
  from soma_cylinders_rejected [OF closed resolved False, of k 0 "[]" "[]"] False
  show ?thesis by (auto simp: build_soma_cylinders_def empty_Soma_def)
qed

lemma build_soma_closed:
  assumes closed: "\<forall>i cs. ch i = Some cs \<longrightarrow> set cs \<subseteq> dom sm"
    and resolved: "\<forall>s \<in> set ss. parentId s = SWC_ROOT \<or> sm (parentId s) \<noteq> None"
  shows "(soma_accepted sm ch ss \<longrightarrow>
            build_soma k sm ch empty_Soma ss =
              Inr (\<lparr>soma_type = soma_variant ss, soma_points = map point ss,
                    soma_diameters = map diameter ss\<rparr>, sm, soma_warnings k ss)) \<and>
         (\<not> soma_accepted sm ch ss \<longrightarrow>
            build_soma k sm ch empty_Soma ss = Inl ERROR_SOMA_WITH_NEURITE_PARENT \<or>
            build_soma k sm ch empty_Soma ss = Inl ERROR_SOMA_BIFURCATION \<or>
            build_soma k sm ch empty_Soma ss = Inl ERROR_MULTIPLE_SOMATA)"
proof (cases ss rule: list_upto3_cases)
  case 1
  then show ?thesis
    by (simp add: build_soma_def soma_accepted_def soma_variant_def soma_warnings_def
          empty_Soma_def)
next
  case (2 a)
  with resolved show ?thesis
    by (auto simp: build_soma_def soma_accepted_def soma_variant_def soma_warnings_def
          parent_is_soma_def split: option.splits)
next
  case (3 a b)
  with build_soma_cylinders_closed [OF closed resolved, of k] show ?thesis
    by (simp add: build_soma_def soma_accepted_def soma_variant_def soma_warnings_def)
next
  case (4 a b c)
  with build_soma_cylinders_closed [OF closed resolved, of k] show ?thesis
    by (simp add: build_soma_def soma_accepted_def soma_variant_def soma_warnings_def eq_commute)
next
  case (5 a b c d r)
  with build_soma_cylinders_closed [OF closed resolved, of k] show ?thesis
    by (simp add: build_soma_def soma_accepted_def soma_variant_def soma_warnings_def)
qed

lemma validated_closed:
  assumes "index_samples k all empty_Indices xs = Inr (ix, w)"
  shows "\<forall>i cs. children_map ix i = Some cs \<longrightarrow> set cs \<subseteq> dom (samples_map ix)"
proof (intro allI impI)
  fix i cs
  assume c: "children_map ix i = Some cs"
  note f = index_samples_Inr [OF assms]
  from f c have cs: "cs = children_of xs i"
    by (auto simp: empty_Indices_def split: if_splits)
  show "set cs \<subseteq> dom (samples_map ix)"
  proof
    fix j assume "j \<in> set cs"
    with cs obtain s where "s \<in> set xs" "sample_id s = j" by (auto simp: children_of_def)
    with f have "samples_map ix j = Some s" by simp
    then show "j \<in> dom (samples_map ix)" by auto
  qed
qed

lemma validated_resolved:
  assumes "index_samples k all empty_Indices xs = Inr (ix, w)"
    and "check_missing_parents (samples_map ix) xs = Inr ()"
  shows "\<forall>s \<in> set (soma_samples ix). parentId s = SWC_ROOT \<or> samples_map ix (parentId s) \<noteq> None"
proof -
  from index_samples_Inr [OF assms(1)] have "set (soma_samples ix) \<subseteq> set xs"
    by (auto simp: empty_Indices_def)
  with assms(2) show ?thesis by (auto simp: check_missing_parents_Inr)
qed

section \<open>Line numbers do not matter\<close>

lemma erase_line_fields:
  "sample_id (erase_line s) = sample_id s"
  "sample_type (erase_line s) = sample_type s"
  "point (erase_line s) = point s"
  "diameter (erase_line s) = diameter s"
  "parentId (erase_line s) = parentId s"
  by (simp_all add: erase_line_def)

lemma erase_lines_apply: "erase_lines sm i = map_option erase_line (sm i)"
  by (simp add: erase_lines_def)

lemma erase_line_eqD:
  assumes "erase_line a = erase_line b"
  shows "sample_id a = sample_id b \<and> sample_type a = sample_type b \<and> point a = point b \<and>
         diameter a = diameter b \<and> parentId a = parentId b"
  using erase_line_fields [of a] erase_line_fields [of b] assms by simp

lemma combine_samples_erase:
  "combine_samples n (erase_lines sm) ch i ps ds = combine_samples n sm ch i ps ds"
proof (induction n arbitrary: i ps ds)
  case 0
  show ?case by simp
next
  case (Suc n)
  note ei = erase_lines_apply [of sm i]
  show ?case
  proof (cases "get_child_count ch i = 1")
    case False
    then show ?thesis by simp
  next
    case True
    show ?thesis
    proof (cases "sm i")
      case None
      with True ei show ?thesis by simp
    next
      case (Some s)
      show ?thesis
      proof (cases "ch i")
        case None
        with True Some ei show ?thesis by simp
      next
        case cs: (Some cs)
        show ?thesis
        proof (cases cs)
          case Nil
          with True Some cs ei show ?thesis by simp
        next
          case (Cons c cs')
          note ec = erase_lines_apply [of sm c]
          show ?thesis
          proof (cases "sm c")
            case None
            with True Some cs Cons ei ec show ?thesis by simp
          next
            case child: (Some child)
            with True Some cs Cons ei ec show ?thesis
              by (simp add: Suc.IH erase_line_fields)
          qed
        qed
      qed
    qed
  qed
qed

lemma assembleChildren_erase:
  assumes "\<And>i st. assembleSections n (erase_lines sm) ch i p sp sd False st =
                   assembleSections n sm ch i p sp sd False st"
  shows "assembleChildren n (erase_lines sm) ch cs p sp sd st =
         assembleChildren n sm ch cs p sp sd st"
proof (induction cs arbitrary: st)
  case Nil
  show ?case by simp
next
  case (Cons c cs)
  show ?case by (simp add: assms Cons.IH split: option.splits sum.splits)
qed

lemma assembleSections_erase:
  "assembleSections n (erase_lines sm) ch i p sp sd r st =
   assembleSections n sm ch i p sp sd r st"
proof (induction n arbitrary: i p sp sd r st)
  case 0
  show ?case by simp
next
  case (Suc n)
  note ch = assembleChildren_erase [of n sm ch, OF Suc.IH]
  note ei = erase_lines_apply [of sm i]
  show ?case
  proof (cases "sm i")
    case None
    with ei show ?thesis by simp
  next
    case (Some s0)
    show ?thesis
    proof (cases "combine_samples n sm ch i
                    (if \<not> r \<and> point s0 \<noteq> sp then [sp] else [])
                    (if \<not> r \<and> point s0 \<noteq> sp then [sd] else [])")
      case None
      with Some ei show ?thesis by (simp add: combine_samples_erase erase_line_fields)
    next
      case res: (Some res)
      show ?thesis
      proof (cases res)
        case (Inl e)
        with Some res ei show ?thesis
          by (simp add: combine_samples_erase erase_line_fields)
      next
        case (Inr t)
        obtain j ps0 ds0 where t: "t = (j, ps0, ds0)" by (cases t)
        note ej = erase_lines_apply [of sm j]
        show ?thesis
        proof (cases "sm j")
          case None
          with Some res Inr t ei ej show ?thesis
            by (simp add: combine_samples_erase erase_line_fields)
        next
          case sj: (Some s)
          with Some res Inr t ei ej show ?thesis
            by (simp add: combine_samples_erase erase_line_fields Suc.IH ch
                  split: sum.splits option.splits list.splits)
        qed
      qed
    qed
  qed
qed

lemma root_children_erase:
  "root_children n (erase_lines sm) ch (erase_line rs) cs st =
   root_children n sm ch rs cs st"
proof (induction cs arbitrary: st)
  case Nil
  show ?case by simp
next
  case (Cons c cs)
  note ec = erase_lines_apply [of sm c]
  show ?case
  proof (cases "sm c")
    case None
    with ec show ?thesis by simp
  next
    case (Some child)
    with ec show ?thesis
      by (simp add: Cons.IH assembleSections_erase erase_line_fields
            split: option.splits sum.splits list.splits prod.splits)
  qed
qed

lemma root_loop_erase:
  "root_loop n (erase_lines sm) ch (map erase_line roots) st =
   root_loop n sm ch roots st"
proof (induction roots arbitrary: st)
  case Nil
  show ?case by simp
next
  case (Cons r roots)
  show ?case
    by (simp add: Cons.IH root_children_erase erase_line_fields
          split: option.splits sum.splits prod.splits)
qed

lemma root_loop_same_lines:
  assumes "erase_lines sm' = erase_lines sm"
    and "map erase_line roots' = map erase_line roots"
  shows "root_loop n sm' ch roots' st = root_loop n sm ch roots st"
  using root_loop_erase [of n sm' ch roots' st] root_loop_erase [of n sm ch roots st] assms
  by simp

lemma soma_variant_erase: "soma_variant (map erase_line ss) = soma_variant ss"
  by (cases ss rule: list_upto3_cases) (simp_all add: soma_variant_def erase_line_fields)

lemma parent_is_soma_erase:
  "parent_is_soma (erase_lines sm) (erase_line s) = parent_is_soma sm s"
  by (simp add: parent_is_soma_def erase_line_fields erase_lines_apply split: option.splits)

lemma soma_children_erase:
  "soma_children (erase_lines sm) cs = soma_children sm cs"
proof -
  have "(\<lambda>i. case erase_lines sm i of None \<Rightarrow> False
               | Some c \<Rightarrow> sample_type c = SECTION_SOMA) =
        (\<lambda>i. case sm i of None \<Rightarrow> False | Some c \<Rightarrow> sample_type c = SECTION_SOMA)"
    by (rule ext) (simp add: erase_line_fields erase_lines_apply split: option.splits)
  then show ?thesis by (simp add: soma_children_def)
qed

lemma soma_bifurcates_erase:
  "soma_bifurcates (erase_lines sm) ch (erase_line s) = soma_bifurcates sm ch s"
  by (simp add: soma_bifurcates_def soma_children_erase erase_line_fields split: option.splits)

lemma soma_accepted_erase:
  "soma_accepted (erase_lines sm) ch (map erase_line ss) = soma_accepted sm ch ss"
proof -
  have a: "list_all (\<lambda>s. parent_is_soma (erase_lines sm) s \<and>
                        \<not> soma_bifurcates (erase_lines sm) ch s) (map erase_line ss) =
           list_all (\<lambda>s. parent_is_soma sm s \<and> \<not> soma_bifurcates sm ch s) ss"
    by (simp add: list_all_iff parent_is_soma_erase soma_bifurcates_erase)
  have b: "length (filter (\<lambda>s. parentId s = SWC_ROOT) (map erase_line ss)) =
           length (filter (\<lambda>s. parentId s = SWC_ROOT) ss)"
    by (simp add: filter_map comp_def erase_line_fields)
  have c: "soma_variant ss = SOMA_SINGLE_POINT \<Longrightarrow>
             parent_is_soma (erase_lines sm) (map erase_line ss ! 0) =
             parent_is_soma sm (ss ! 0)"
    by (cases ss rule: list_upto3_cases)
       (simp_all add: soma_variant_def parent_is_soma_erase split: if_splits)
  show ?thesis
    unfolding soma_accepted_def soma_variant_erase a b using c by auto
qed

lemma same_lines_fields:
  assumes "map erase_line ss' = map erase_line ss"
  shows "map point ss' = map point ss" "map diameter ss' = map diameter ss"
    "soma_variant ss' = soma_variant ss"
proof -
  have "map point (map erase_line ss') = map point (map erase_line ss)" using assms by simp
  then show "map point ss' = map point ss" by (simp add: comp_def erase_line_fields)
  have "map diameter (map erase_line ss') = map diameter (map erase_line ss)" using assms by simp
  then show "map diameter ss' = map diameter ss" by (simp add: comp_def erase_line_fields)
  from assms soma_variant_erase [of ss'] soma_variant_erase [of ss]
  show "soma_variant ss' = soma_variant ss" by simp
qed

lemma valid_sample_erase: "valid_sample k (erase_line s) = valid_sample k s"
  by (simp add: valid_sample_def erase_line_fields)

lemma same_line_image:
  assumes "erase_line ` set ys = erase_line ` set xs" "s \<in> set ys"
  shows "\<exists>t. t \<in> set xs \<and> erase_line t = erase_line s"
proof -
  from assms have "erase_line s \<in> erase_line ` set xs" by blast
  then obtain t where "t \<in> set xs" "erase_line s = erase_line t" by blast
  then show ?thesis by auto
qed

lemma samples_map_same_lines:
  assumes fx: "\<forall>i s. samples_map ix i = Some s \<longleftrightarrow> (s \<in> set xs \<and> sample_id s = i)"
    and fy: "\<forall>i s. samples_map iy i = Some s \<longleftrightarrow> (s \<in> set ys \<and> sample_id s = i)"
    and set: "erase_line ` set ys = erase_line ` set xs"
  shows "erase_lines (samples_map iy) = erase_lines (samples_map ix)"
proof (rule map_eq_by_Some)
  fix i t
  have x: "erase_lines (samples_map ix) i = Some t \<longleftrightarrow>
           (\<exists>s \<in> set xs. sample_id s = i \<and> erase_line s = t)"
    using fx by (auto simp: erase_lines_apply)
  have y: "erase_lines (samples_map iy) i = Some t \<longleftrightarrow>
           (\<exists>s \<in> set ys. sample_id s = i \<and> erase_line s = t)"
    using fy by (auto simp: erase_lines_apply)
  have "(\<exists>s \<in> set ys. sample_id s = i \<and> erase_line s = t) \<longleftrightarrow>
        (t \<in> erase_line ` set ys \<and> sample_id t = i)"
    using erase_line_fields(1) by auto
  moreover have "(\<exists>s \<in> set xs. sample_id s = i \<and> erase_line s = t) \<longleftrightarrow>
        (t \<in> erase_line ` set xs \<and> sample_id t = i)"
    using erase_line_fields(1) by auto
  ultimately show "(erase_lines (samples_map iy) i = Some t) =
                   (erase_lines (samples_map ix) i = Some t)"
    using x y set by simp
qed

lemma buildSWC_reordered:
  assumes perm: "mset (map erase_line ys) = mset (map erase_line xs)"
    and soma_order: "map erase_line (filter is_soma_sample ys) =
                     map erase_line (filter is_soma_sample xs)"
    and root_order: "map erase_line (filter is_root_sample ys) =
                     map erase_line (filter is_root_sample xs)"
    and child_order: "\<forall>p. children_of ys p = children_of xs p"
    and accepted: "buildSWC n k xs = Some (Inr (m, w))"
  shows "\<exists>w'. buildSWC n k ys = Some (Inr (m, w'))"
proof -
  from buildSWC_Inr [OF accepted] obtain ix w1 so sm' w2 d w3 where
    a: "index_samples k xs empty_Indices xs = Inr (ix, w1)" and
    b: "check_missing_parents (samples_map ix) xs = Inr ()" and
    c: "build_soma k (samples_map ix) (children_map ix) empty_Soma (soma_samples ix) =
             Inr (so, sm', w2)" and
    e: "root_loop n sm' (children_map ix) (root_samples ix)
             (\<lparr>soma = so, sections = []\<rparr>, Map.empty) = Some (Inr ((m, d), w3))"
    by blast
  note fx = index_samples_Inr [OF a]
  note bx = build_soma_closed [OF validated_closed [OF a] validated_resolved [OF a b], of k]
  from bx c have acc_x: "soma_accepted (samples_map ix) (children_map ix) (soma_samples ix)"
    by auto
  with bx c have so: "so = \<lparr>soma_type = soma_variant (soma_samples ix),
                             soma_points = map point (soma_samples ix),
                             soma_diameters = map diameter (soma_samples ix)\<rparr>"
    and sm': "sm' = samples_map ix" by auto
  from perm have "set (map erase_line ys) = set (map erase_line xs)" by (rule mset_eq_setD)
  then have set: "erase_line ` set ys = erase_line ` set xs" by simp
  have valid: "list_all (valid_sample k) ys"
  proof (unfold list_all_iff, rule ballI)
    fix s assume "s \<in> set ys"
    with same_line_image [OF set] obtain t where t: "t \<in> set xs" "erase_line t = erase_line s"
      by blast
    from fx t(1) have "valid_sample k t" by (simp add: list_all_iff)
    then have "valid_sample k (erase_line t)" by (simp add: valid_sample_erase)
    with t(2) show "valid_sample k s" by (simp add: valid_sample_erase)
  qed
  have ids: "map sample_id (map erase_line zs) = map sample_id zs" for zs
    by (simp add: comp_def erase_line_fields)
  from perm have "image_mset sample_id (mset (map erase_line ys)) =
                  image_mset sample_id (mset (map erase_line xs))" by (rule arg_cong)
  then have "mset (map sample_id (map erase_line ys)) =
             mset (map sample_id (map erase_line xs))" by (simp only: mset_map)
  then have "mset (map sample_id ys) = mset (map sample_id xs)" by (simp only: ids)
  then have dist: "distinct (map sample_id ys)"
    using fx mset_eq_imp_distinct_iff by blast
  have "\<forall>s \<in> set ys. samples_map empty_Indices (sample_id s) = None"
    by (simp add: empty_Indices_def)
  from index_samples_succeeds [OF valid dist this] obtain iy w1' where
    a': "index_samples k ys empty_Indices ys = Inr (iy, w1')" by blast
  note fy = index_samples_Inr [OF a']
  have maps: "erase_lines (samples_map iy) = erase_lines (samples_map ix)"
    by (rule samples_map_same_lines [of ix xs iy ys])
       (use fx fy set in \<open>simp_all add: empty_Indices_def\<close>)
  have doms: "samples_map iy p \<noteq> None \<longleftrightarrow> samples_map ix p \<noteq> None" for p
  proof -
    have "erase_lines (samples_map iy) p = erase_lines (samples_map ix) p" using maps by simp
    then have "map_option erase_line (samples_map iy p) =
               map_option erase_line (samples_map ix p)" by (simp add: erase_lines_apply)
    then show ?thesis by (cases "samples_map iy p"; cases "samples_map ix p") simp_all
  qed
  have chs: "children_map iy = children_map ix"
  proof (rule ext)
    fix p
    show "children_map iy p = children_map ix p"
      using fx fy child_order by (simp add: empty_Indices_def)
  qed
  have somas: "map erase_line (soma_samples iy) = map erase_line (soma_samples ix)"
    using fx fy soma_order by (simp add: empty_Indices_def)
  have roots: "map erase_line (root_samples iy) = map erase_line (root_samples ix)"
    using fx fy root_order by (simp add: empty_Indices_def)
  have b': "check_missing_parents (samples_map iy) ys = Inr ()"
  proof (unfold check_missing_parents_Inr, rule ballI)
    fix s assume "s \<in> set ys"
    with same_line_image [OF set] obtain t where t: "t \<in> set xs" "erase_line t = erase_line s"
      by blast
    from erase_line_eqD [OF t(2)] have p: "parentId t = parentId s" by simp
    from b t(1) have "parentId t = SWC_ROOT \<or> samples_map ix (parentId t) \<noteq> None"
      by (simp add: check_missing_parents_Inr)
    with p doms [of "parentId s"]
    show "parentId s = SWC_ROOT \<or> samples_map iy (parentId s) \<noteq> None" by simp
  qed
  note by' = build_soma_closed [OF validated_closed [OF a'] validated_resolved [OF a' b'], of k]
  have "soma_accepted (samples_map iy) (children_map iy) (soma_samples iy) =
        soma_accepted (erase_lines (samples_map ix)) (children_map ix)
          (map erase_line (soma_samples ix))"
    using soma_accepted_erase [of "samples_map iy" "children_map iy" "soma_samples iy"]
      maps chs somas by simp
  with acc_x have acc_y: "soma_accepted (samples_map iy) (children_map iy) (soma_samples iy)"
    by (simp add: soma_accepted_erase)
  from same_lines_fields [OF somas] so have
    so': "so = \<lparr>soma_type = soma_variant (soma_samples iy),
                 soma_points = map point (soma_samples iy),
                 soma_diameters = map diameter (soma_samples iy)\<rparr>" by simp
  from by' acc_y so' have c':
    "build_soma k (samples_map iy) (children_map iy) empty_Soma (soma_samples iy) =
       Inr (so, samples_map iy, soma_warnings k (soma_samples iy))" by simp
  have e': "root_loop n (samples_map iy) (children_map iy) (root_samples iy)
             (\<lparr>soma = so, sections = []\<rparr>, Map.empty) = Some (Inr ((m, d), w3))"
    using root_loop_same_lines [OF maps roots, of n "children_map ix"] e sm' chs by simp
  show ?thesis unfolding buildSWC_def using a' b' c' e' by simp
qed

section \<open>The soma variant\<close>

text \<open>
  C2, as the claim states it: for every validated sample list with exactly one soma sample
  the variant chosen is the single point. The file below passes both loops of the
  validation and has exactly one soma sample, whose parent is a neurite: no variant is
  chosen, the load fails with \<open>ERROR_SOMA_WITH_NEURITE_PARENT\<close>.
\<close>

theorem single_soma_with_neurite_parent_counterexample:
  "readSamples test_Constants ''1 2 0 0 0 1 -1\<newline>2 1 1 1 1 1 1\<newline>'' =
     Some (Inr neurite_parent_soma)
   \<and> \<not> isl (index_samples test_Constants neurite_parent_soma empty_Indices neurite_parent_soma)
   \<and> check_missing_parents
       (samples_map (fst (projr (index_samples test_Constants neurite_parent_soma
          empty_Indices neurite_parent_soma)))) neurite_parent_soma = Inr ()
   \<and> length (filter is_soma_sample neurite_parent_soma) = 1
   \<and> load 10 test_Constants ''1 2 0 0 0 1 -1\<newline>2 1 1 1 1 1 1\<newline>'' =
     Some (Inl ERROR_SOMA_WITH_NEURITE_PARENT)"
  by code_simp

text \<open>
  C2, amended: for every sample list that passes both loops of the validation, the soma
  samples are the samples of type soma in source order, and \<open>build_soma\<close> on them either
  fails or returns the soma whose variant is the one the specification names (undefined for
  none, single point for one, three-point cylinders for three of which the second and third
  have the first as parent, cylinders otherwise) and whose points and diameters are those of
  the soma samples in source order. It fails, with \<open>ERROR_SOMA_WITH_NEURITE_PARENT\<close>,
  \<open>ERROR_SOMA_BIFURCATION\<close> or \<open>ERROR_MULTIPLE_SOMATA\<close>, exactly when: the soma is a single
  sample whose parent is not a soma sample; or, in the cylinders case, some soma sample has
  a parent that is not a soma sample, or has several children of which more than one is a
  soma sample, or more than one soma sample has no parent. With no soma sample it never
  fails. Whenever \<open>buildSWC\<close> returns, the soma of the result is that soma.
\<close>

theorem soma_variant_of_validated:
  assumes "index_samples k samples empty_Indices samples = Inr (ix, w1)"
    and "check_missing_parents (samples_map ix) samples = Inr ()"
  shows "soma_samples ix = filter is_soma_sample samples \<and>
         (soma_accepted (samples_map ix) (children_map ix) (soma_samples ix) \<longrightarrow>
            build_soma k (samples_map ix) (children_map ix) empty_Soma (soma_samples ix) =
              Inr (\<lparr>soma_type = soma_variant (soma_samples ix),
                    soma_points = map point (soma_samples ix),
                    soma_diameters = map diameter (soma_samples ix)\<rparr>,
                   samples_map ix, soma_warnings k (soma_samples ix))) \<and>
         (\<not> soma_accepted (samples_map ix) (children_map ix) (soma_samples ix) \<longrightarrow>
            build_soma k (samples_map ix) (children_map ix) empty_Soma (soma_samples ix) =
              Inl ERROR_SOMA_WITH_NEURITE_PARENT \<or>
            build_soma k (samples_map ix) (children_map ix) empty_Soma (soma_samples ix) =
              Inl ERROR_SOMA_BIFURCATION \<or>
            build_soma k (samples_map ix) (children_map ix) empty_Soma (soma_samples ix) =
              Inl ERROR_MULTIPLE_SOMATA) \<and>
         (soma_samples ix = [] \<longrightarrow>
            soma_accepted (samples_map ix) (children_map ix) (soma_samples ix)) \<and>
         (\<forall>n m w. buildSWC n k samples = Some (Inr (m, w)) \<longrightarrow>
            soma m = \<lparr>soma_type = soma_variant (soma_samples ix),
                      soma_points = map point (soma_samples ix),
                      soma_diameters = map diameter (soma_samples ix)\<rparr>)"
proof -
  from index_samples_Inr [OF assms(1)] have
    s: "soma_samples ix = filter is_soma_sample samples" by (simp add: empty_Indices_def)
  note b = build_soma_closed [OF validated_closed [OF assms(1)]
             validated_resolved [OF assms(1) assms(2)], of k]
  have e: "soma_samples ix = [] \<longrightarrow>
            soma_accepted (samples_map ix) (children_map ix) (soma_samples ix)"
    by (simp add: soma_accepted_def soma_variant_def)
  have t: "soma m = \<lparr>soma_type = soma_variant (soma_samples ix),
                      soma_points = map point (soma_samples ix),
                      soma_diameters = map diameter (soma_samples ix)\<rparr>"
    if "buildSWC n k samples = Some (Inr (m, w))" for n m w
  proof -
    from buildSWC_invariant [OF that] obtain ix' w1' so sm' w2 d where
      a: "index_samples k samples empty_Indices samples = Inr (ix', w1')" and
      c: "build_soma k (samples_map ix') (children_map ix') empty_Soma (soma_samples ix') =
            Inr (so, sm', w2)" and
      i: "assembly_invariant sm' so (m, d)"
      by blast
    from a assms(1) have "ix' = ix" by simp
    with build_soma_variant [OF c] have
      "so = \<lparr>soma_type = soma_variant (soma_samples ix),
             soma_points = map point (soma_samples ix),
             soma_diameters = map diameter (soma_samples ix)\<rparr>" by simp
    moreover from i have "soma m = so" by (simp add: assembly_invariant_def)
    ultimately show ?thesis by simp
  qed
  from s b e t show ?thesis by blast
qed

text \<open>
  The amended theorem at a soma of two cylinders.
\<close>

theorem soma_variant_of_validated_witness:
  "index_samples test_Constants cylinder_soma empty_Indices cylinder_soma =
     Inr (cylinder_soma_indices, [])
   \<and> check_missing_parents (samples_map cylinder_soma_indices) cylinder_soma = Inr ()
   \<and> soma_samples cylinder_soma_indices = filter is_soma_sample cylinder_soma
   \<and> soma_accepted (samples_map cylinder_soma_indices) (children_map cylinder_soma_indices)
       (soma_samples cylinder_soma_indices)
   \<and> build_soma test_Constants (samples_map cylinder_soma_indices)
       (children_map cylinder_soma_indices) empty_Soma (soma_samples cylinder_soma_indices) =
       Inr (\<lparr>soma_type = SOMA_CYLINDERS, soma_points = [(0, 0, 0), (1, 1, 1)],
             soma_diameters = [2, 2]\<rparr>, samples_map cylinder_soma_indices, [])"
proof -
  have h1: "index_samples test_Constants cylinder_soma empty_Indices cylinder_soma =
     Inr (cylinder_soma_indices, [])"
    by (simp add: cylinder_soma_def cylinder_soma_indices_def test_sample_def index_sample_def
          empty_Indices_def test_Constants_def SWC_ROOT_def SECTION_SOMA_def Let_def)
  have h2: "check_missing_parents (samples_map cylinder_soma_indices) cylinder_soma = Inr ()"
    by (simp add: cylinder_soma_def cylinder_soma_indices_def test_sample_def SWC_ROOT_def)
  have acc: "soma_accepted (samples_map cylinder_soma_indices)
       (children_map cylinder_soma_indices) (soma_samples cylinder_soma_indices)"
    by (simp add: cylinder_soma_def cylinder_soma_indices_def test_sample_def SWC_ROOT_def
          soma_accepted_def soma_variant_def parent_is_soma_def soma_bifurcates_def
          SECTION_SOMA_def)
  have v: "soma_variant (soma_samples cylinder_soma_indices) = SOMA_CYLINDERS"
    "map point (soma_samples cylinder_soma_indices) = [(0, 0, 0), (1, 1, 1)]"
    "map diameter (soma_samples cylinder_soma_indices) = [2, 2]"
    "soma_warnings test_Constants (soma_samples cylinder_soma_indices) = []"
    by (simp_all add: cylinder_soma_def cylinder_soma_indices_def test_sample_def
          soma_variant_def soma_warnings_def)
  note t = soma_variant_of_validated [OF h1 h2]
  from t have s: "soma_samples cylinder_soma_indices = filter is_soma_sample cylinder_soma"
    by (rule conjunct1)
  from t acc have
    "build_soma test_Constants (samples_map cylinder_soma_indices)
       (children_map cylinder_soma_indices) empty_Soma (soma_samples cylinder_soma_indices) =
       Inr (\<lparr>soma_type = soma_variant (soma_samples cylinder_soma_indices),
             soma_points = map point (soma_samples cylinder_soma_indices),
             soma_diameters = map diameter (soma_samples cylinder_soma_indices)\<rparr>,
            samples_map cylinder_soma_indices,
            soma_warnings test_Constants (soma_samples cylinder_soma_indices))"
    by blast
  then have b: "build_soma test_Constants (samples_map cylinder_soma_indices)
       (children_map cylinder_soma_indices) empty_Soma (soma_samples cylinder_soma_indices) =
       Inr (\<lparr>soma_type = SOMA_CYLINDERS, soma_points = [(0, 0, 0), (1, 1, 1)],
             soma_diameters = [2, 2]\<rparr>, samples_map cylinder_soma_indices, [])"
    by (simp only: v)
  from h1 h2 s acc b show ?thesis by blast
qed

section \<open>The warning of a non-conform three-point soma\<close>



section \<open>Chain collapse\<close>

text \<open>
  C1, as the claim states it: for the soma sample 1 and the axon samples 2, 3, 4 with
  parents 1, 2, 3 the one section has four points, the soma point first. On the file below
  the load creates one section with the three points of samples 2, 3 and 4: the start point
  is duplicated only when \<open>is_root\<close> is false, and the section of a child of the soma is a
  root section.
\<close>

theorem chain_collapse_four_points_counterexample:
  "load 10 test_Constants
     ''1 1 0 0 0 1 -1\<newline>2 2 1 0 0 1 1\<newline>3 2 2 0 0 1 2\<newline>4 2 3 0 0 1 3\<newline>'' =
     Some (Inr (\<lparr>soma = \<lparr>soma_type = SOMA_SINGLE_POINT, soma_points = [(0, 0, 0)],
                         soma_diameters = [2]\<rparr>,
                 sections = [\<lparr>section_parent = None,
                              section_points = [(1, 0, 0), (2, 0, 0), (3, 0, 0)],
                              section_diameters = [2, 2, 2], section_type = 2\<rparr>]\<rparr>, []))
   \<and> map section_points (emitted_sections (load 10 test_Constants
     ''1 1 0 0 0 1 -1\<newline>2 2 1 0 0 1 1\<newline>3 2 2 0 0 1 2\<newline>4 2 3 0 0 1 3\<newline>'')) \<noteq>
     [[(0, 0, 0), (1, 0, 0), (2, 0, 0), (3, 0, 0)]]"
  by code_simp

text \<open>
  C1, amended: for one soma sample (id 1, no parent) followed by three samples 2, 3, 4 of
  one valid neurite type with parents 1, 2, 3, whatever their points and diameters,
  \<open>buildSWC\<close> returns, given fuel for four steps, a single-point soma and exactly one
  section, a root section of that type with exactly three points: the points of samples 2, 3
  and 4 in order. The soma point is not in the section.
\<close>

theorem chain_collapse_three_points:
  assumes "1 < t" "t < SECTION_OUT_OF_RANGE_START k"
  shows "\<exists>w. buildSWC (Suc (Suc (Suc (Suc n)))) k
           [\<lparr>sample_id = 1, sample_type = SECTION_SOMA, point = p1, diameter = d1,
             parentId = SWC_ROOT, lineNumber = l1\<rparr>,
            \<lparr>sample_id = 2, sample_type = t, point = p2, diameter = d2,
             parentId = 1, lineNumber = l2\<rparr>,
            \<lparr>sample_id = 3, sample_type = t, point = p3, diameter = d3,
             parentId = 2, lineNumber = l3\<rparr>,
            \<lparr>sample_id = 4, sample_type = t, point = p4, diameter = d4,
             parentId = 3, lineNumber = l4\<rparr>] =
         Some (Inr (\<lparr>soma = \<lparr>soma_type = SOMA_SINGLE_POINT, soma_points = [p1],
                             soma_diameters = [d1]\<rparr>,
                     sections = [\<lparr>section_parent = None, section_points = [p2, p3, p4],
                                  section_diameters = [d2, d3, d4], section_type = t\<rparr>]\<rparr>, w))"
  using assms
  by (simp add: buildSWC_def index_sample_def empty_Indices_def SWC_ROOT_def SECTION_SOMA_def
        build_soma_def empty_Soma_def get_child_count_def appendSection_def
        appendRootSection_def Let_def)

text \<open>
  The amended theorem at the axon type 2 and the points of the file above.
\<close>

theorem chain_collapse_three_points_witness:
  "(1 :: int) < 2 \<and> 2 < SECTION_OUT_OF_RANGE_START test_Constants \<and>
   (\<exists>w. buildSWC (Suc (Suc (Suc (Suc 0)))) test_Constants
           [\<lparr>sample_id = 1, sample_type = SECTION_SOMA, point = (0, 0, 0), diameter = 2,
             parentId = SWC_ROOT, lineNumber = 1\<rparr>,
            \<lparr>sample_id = 2, sample_type = 2, point = (1, 0, 0), diameter = 2,
             parentId = 1, lineNumber = 2\<rparr>,
            \<lparr>sample_id = 3, sample_type = 2, point = (2, 0, 0), diameter = 2,
             parentId = 2, lineNumber = 3\<rparr>,
            \<lparr>sample_id = 4, sample_type = 2, point = (3, 0, 0), diameter = 2,
             parentId = 3, lineNumber = 4\<rparr>] =
         Some (Inr (\<lparr>soma = \<lparr>soma_type = SOMA_SINGLE_POINT, soma_points = [(0, 0, 0)],
                             soma_diameters = [2]\<rparr>,
                     sections = [\<lparr>section_parent = None,
                                  section_points = [(1, 0, 0), (2, 0, 0), (3, 0, 0)],
                                  section_diameters = [2, 2, 2], section_type = 2\<rparr>]\<rparr>, w)))"
proof -
  have a: "(1 :: int) < 2" by simp
  have b: "2 < SECTION_OUT_OF_RANGE_START test_Constants" by (simp add: test_Constants_def)
  from chain_collapse_three_points [OF a b, of 0 "(0, 0, 0)" 2 1 "(1, 0, 0)" 2 2 "(2, 0, 0)" 2 3
      "(3, 0, 0)" 2 4] a b
  show ?thesis by blast
qed

section \<open>Fork duplication\<close>

text \<open>
  C8. In every morphology \<open>buildSWC\<close> returns, a section that was appended to a parent
  section comes after its parent, neither of the two is empty, and its first point equals
  the last point of the parent.
\<close>

theorem fork_duplication:
  assumes "buildSWC n k samples = Some (Inr (m, w))"
    and "i < length (sections m)"
    and "section_parent (sections m ! i) = Some h"
  shows "h < i \<and> section_points (sections m ! i) \<noteq> [] \<and>
         section_points (sections m ! h) \<noteq> [] \<and>
         hd (section_points (sections m ! i)) = last (section_points (sections m ! h))"
proof -
  from buildSWC_invariant [OF assms(1)] obtain sm' so d where
    "assembly_invariant sm' so (m, d)" by blast
  then have
    ne: "\<And>i. i < length (sections m) \<Longrightarrow> section_points (sections m ! i) \<noteq> []" and
    fk: "\<And>i h. i < length (sections m) \<Longrightarrow> section_parent (sections m ! i) = Some h \<Longrightarrow>
           h < i \<and> hd (section_points (sections m ! i)) = last (section_points (sections m ! h))"
    unfolding assembly_invariant_def by auto
  from fk [OF assms(2,3)] have "h < i"
    "hd (section_points (sections m ! i)) = last (section_points (sections m ! h))" by auto
  moreover from \<open>h < i\<close> assms(2) have "h < length (sections m)" by simp
  ultimately show ?thesis using ne [of i] ne [of h] assms(2) by simp
qed

text \<open>
  The theorem at scenario S5: the two sections appended to the root section start with the
  point of sample 3, the last point of the root section.
\<close>

theorem fork_duplication_witness:
  "buildSWC 10 test_Constants scenario_S5 = Some (Inr (scenario_S5_morphology, []))
   \<and> 1 < length (sections scenario_S5_morphology)
   \<and> section_parent (sections scenario_S5_morphology ! 1) = Some 0
   \<and> (0 < (1 :: nat) \<and> section_points (sections scenario_S5_morphology ! 1) \<noteq> [] \<and>
      section_points (sections scenario_S5_morphology ! 0) \<noteq> [] \<and>
      hd (section_points (sections scenario_S5_morphology ! 1)) =
        last (section_points (sections scenario_S5_morphology ! 0)))
   \<and> hd (section_points (sections scenario_S5_morphology ! 1)) = point (scenario_S5 ! 2)
   \<and> hd (section_points (sections scenario_S5_morphology ! 2)) = point (scenario_S5 ! 2)"
proof -
  have h1: "buildSWC 10 test_Constants scenario_S5 = Some (Inr (scenario_S5_morphology, []))"
    by code_simp
  have h2: "1 < length (sections scenario_S5_morphology)"
    by (simp add: scenario_S5_morphology_def)
  have h3: "section_parent (sections scenario_S5_morphology ! 1) = Some 0"
    by (simp add: scenario_S5_morphology_def)
  have h4: "hd (section_points (sections scenario_S5_morphology ! 1)) = point (scenario_S5 ! 2)"
    "hd (section_points (sections scenario_S5_morphology ! 2)) = point (scenario_S5 ! 2)"
    by (simp_all add: scenario_S5_morphology_def scenario_S5_def test_sample_def)
  from fork_duplication [OF h1 h2 h3] h1 h2 h3 h4 show ?thesis by blast
qed

section \<open>Forward references and the order of the lines\<close>

text \<open>
  C4, as the claim states it: a file in which a child precedes its parent loads, and gives
  the output of the reordered file. The first file below has the soma sample 2 before its
  parent, sample 1: the load fails with \<open>ERROR_SOMA_BIFURCATION\<close>, while the reordered file
  loads as a three-point soma. The third file has a soma child before its parent and loads;
  the reordered file loads too, with the soma points in the other order.
\<close>

theorem forward_reference_counterexample:
  "load 10 test_Constants ''2 1 0 -1 0 1 1\<newline>1 1 0 0 0 1 -1\<newline>3 1 0 1 0 1 1\<newline>'' =
     Some (Inl ERROR_SOMA_BIFURCATION)
   \<and> load 10 test_Constants ''1 1 0 0 0 1 -1\<newline>2 1 0 -1 0 1 1\<newline>3 1 0 1 0 1 1\<newline>'' =
     Some (Inr (\<lparr>soma = \<lparr>soma_type = SOMA_NEUROMORPHO_THREE_POINT_CYLINDERS,
                         soma_points = [(0, 0, 0), (0, - 1, 0), (0, 1, 0)],
                         soma_diameters = [2, 2, 2]\<rparr>, sections = []\<rparr>, []))
   \<and> load 10 test_Constants ''2 1 1 1 1 1 1\<newline>1 1 0 0 0 1 -1\<newline>'' =
     Some (Inr (\<lparr>soma = \<lparr>soma_type = SOMA_CYLINDERS, soma_points = [(1, 1, 1), (0, 0, 0)],
                         soma_diameters = [2, 2]\<rparr>, sections = []\<rparr>, []))
   \<and> load 10 test_Constants ''1 1 0 0 0 1 -1\<newline>2 1 1 1 1 1 1\<newline>'' =
     Some (Inr (\<lparr>soma = \<lparr>soma_type = SOMA_CYLINDERS, soma_points = [(0, 0, 0), (1, 1, 1)],
                         soma_diameters = [2, 2]\<rparr>, sections = []\<rparr>, []))"
  by code_simp

text \<open>
  C4, amended: let two files hold the same lines, in two orders: the samples read from
  them agree, up to their line numbers, as multisets. When the load accepts the one, and
  the other keeps the relative order of the soma samples, of the root samples and of the
  children of each parent, the load accepts the other too and returns the same morphology.
  The missing-parent check does not depend on the order of the lines; the soma points, the
  order of the root sections and the order of sibling sections follow it.
\<close>

theorem reordered_file_same_output:
  assumes file_x: "readSamples k file_x = Some (Inr xs)"
    and file_y: "readSamples k file_y = Some (Inr ys)"
    and perm: "mset (map erase_line ys) = mset (map erase_line xs)"
    and soma_order: "map erase_line (filter is_soma_sample ys) =
                     map erase_line (filter is_soma_sample xs)"
    and root_order: "map erase_line (filter is_root_sample ys) =
                     map erase_line (filter is_root_sample xs)"
    and child_order: "\<forall>p. children_of ys p = children_of xs p"
    and accepted: "load n k file_x = Some (Inr (m, w))"
  shows "\<exists>w'. load n k file_y = Some (Inr (m, w'))"
proof -
  from accepted file_x have "buildSWC n k xs = Some (Inr (m, w))" by (simp add: load_def)
  from buildSWC_reordered [OF perm soma_order root_order child_order this] file_y
  show ?thesis by (simp add: load_def)
qed

text \<open>
  The amended theorem at the file in which the line of sample 3 precedes the line of its
  parent, sample 2, and the file with these two lines exchanged.
\<close>

theorem reordered_file_witness:
  "readSamples test_Constants forward_reference_file = Some (Inr forward_reference)
   \<and> readSamples test_Constants forward_reference_reordered_file =
       Some (Inr forward_reference_reordered)
   \<and> mset (map erase_line forward_reference_reordered) = mset (map erase_line forward_reference)
   \<and> map erase_line (filter is_soma_sample forward_reference_reordered) =
       map erase_line (filter is_soma_sample forward_reference)
   \<and> map erase_line (filter is_root_sample forward_reference_reordered) =
       map erase_line (filter is_root_sample forward_reference)
   \<and> (\<forall>p. children_of forward_reference_reordered p = children_of forward_reference p)
   \<and> load 10 test_Constants forward_reference_file =
       Some (Inr (forward_reference_morphology, []))
   \<and> (\<exists>w'. load 10 test_Constants forward_reference_reordered_file =
       Some (Inr (forward_reference_morphology, w')))"
proof -
  have f1: "readSamples test_Constants forward_reference_file = Some (Inr forward_reference)"
    by code_simp
  have f2: "readSamples test_Constants forward_reference_reordered_file =
       Some (Inr forward_reference_reordered)"
    by code_simp
  have h1: "mset (map erase_line forward_reference_reordered) =
            mset (map erase_line forward_reference)"
    by (simp add: forward_reference_reordered_def forward_reference_def erase_line_def
          test_sample_def)
  have h2: "map erase_line (filter is_soma_sample forward_reference_reordered) =
            map erase_line (filter is_soma_sample forward_reference)"
    by (simp add: forward_reference_reordered_def forward_reference_def is_soma_sample_def
          test_sample_def SECTION_SOMA_def erase_line_def)
  have h3: "map erase_line (filter is_root_sample forward_reference_reordered) =
            map erase_line (filter is_root_sample forward_reference)"
    by (simp add: forward_reference_reordered_def forward_reference_def is_root_sample_def
          test_sample_def SECTION_SOMA_def SWC_ROOT_def erase_line_def)
  have h4: "\<forall>p. children_of forward_reference_reordered p = children_of forward_reference p"
    by (simp add: forward_reference_reordered_def forward_reference_def children_of_def
          test_sample_def SWC_ROOT_def)
  have h5: "load 10 test_Constants forward_reference_file =
       Some (Inr (forward_reference_morphology, []))"
    by code_simp
  from reordered_file_same_output [OF f1 f2 h1 h2 h3 h4 h5] f1 f2 h1 h2 h3 h4 h5
  show ?thesis by blast
qed

end
